theory Spec2Isabelle
  imports Complex_Main "HOL-Library.Multiset"
begin

section \<open>Numbers and errors\<close>

text \<open>
  Scores, probabilities and embedding components are IEEE floating-point numbers
  (numpy scalars). A float is modelled by the real number it denotes, or one of the
  three special values. Comparisons are exact on this model. Arithmetic is idealised:
  finite results are not rounded, do not overflow, and the two signed zeros are one
  value; the special values follow IEEE 754, which is what numpy computes (a division
  by zero gives an infinity or NaN and a warning, never an exception).
\<close>

datatype npfloat = Fin real | PInf | NInf | NaN

fun is_nan :: "npfloat \<Rightarrow> bool" where
  "is_nan NaN = True"
| "is_nan _ = False"

text \<open>Python's \<^verbatim>\<open>x < y\<close> on floats: false as soon as one side is NaN.\<close>

fun fl_lt :: "npfloat \<Rightarrow> npfloat \<Rightarrow> bool" where
  "fl_lt NaN _ = False"
| "fl_lt _ NaN = False"
| "fl_lt (Fin a) (Fin b) = (a < b)"
| "fl_lt (Fin _) PInf = True"
| "fl_lt (Fin _) NInf = False"
| "fl_lt PInf _ = False"
| "fl_lt NInf NInf = False"
| "fl_lt NInf _ = True"

text \<open>Python's \<^verbatim>\<open>x >= y\<close>: also false as soon as one side is NaN.\<close>

definition fl_ge :: "npfloat \<Rightarrow> npfloat \<Rightarrow> bool" where
  "fl_ge x y = (\<not> is_nan x \<and> \<not> is_nan y \<and> \<not> fl_lt x y)"

text \<open>The exceptions the modelled code can raise.\<close>

datatype py_error = UnboundLocalError | ValueError | IndexError

section \<open>Faces and the result of detect\<close>

text \<open>
  A face is the detector's bounding box object. Only the three attributes that
  \<^verbatim>\<open>tag_faces\<close> assigns are named; the geometry lives in the record's
  extension. \<^verbatim>\<open>None\<close> stands for an attribute that holds no identity yet.
  A list of faces holds one record per position: the objects of the list are distinct.
\<close>

record face =
  face_feature :: "npfloat list option"
  face_name :: "string option"
  face_score :: "npfloat option"

text \<open>The dictionary that \<^verbatim>\<open>detect\<close> returns, with its three keys.\<close>

record detect_result =
  result_output :: "npfloat list list"
  result_feature :: "npfloat list list"
  result_name :: "(string \<times> npfloat) list list"

section \<open>tag\_faces\<close>

text \<open>
  \<^verbatim>\<open>
  def tag_faces(self, faces, result):
      for face_idx, face in enumerate(faces):
          face.face_feature = result['feature'][face_idx]
          name, score = result['name'][face_idx][0]
          if score < DeepFaceConfs.get()['recognizer']['score_th']:
              continue
          face.face_name = name
          face.face_score = score
      return faces
  \<close>
  The faces are mutated in place, so an exception leaves the assignments made so far.
  The model returns the faces as they are when the call ends, and the exception that
  ended it, if any. The three subscripts raise \<^verbatim>\<open>IndexError\<close> out of range.
\<close>

fun tag_faces_loop ::
  "npfloat \<Rightarrow> detect_result \<Rightarrow> nat \<Rightarrow> 'a face_scheme list \<Rightarrow> 'a face_scheme list \<times> py_error option"
where
  "tag_faces_loop score_th result face_idx [] = ([], None)"
| "tag_faces_loop score_th result face_idx (face # faces) =
     (if length (result_feature result) \<le> face_idx then (face # faces, Some IndexError)
      else
        let face1 = face\<lparr>face_feature := Some (result_feature result ! face_idx)\<rparr> in
        if length (result_name result) \<le> face_idx then (face1 # faces, Some IndexError)
        else
          (case result_name result ! face_idx of
             [] \<Rightarrow> (face1 # faces, Some IndexError)
           | (nm, score) # _ \<Rightarrow>
               let face2 =
                     (if fl_lt score score_th then face1
                      else face1\<lparr>face_name := Some nm, face_score := Some score\<rparr>);
                   rest = tag_faces_loop score_th result (Suc face_idx) faces
               in (face2 # fst rest, snd rest)))"

definition tag_faces ::
  "npfloat \<Rightarrow> 'a face_scheme list \<Rightarrow> detect_result \<Rightarrow> 'a face_scheme list \<times> py_error option"
where
  "tag_faces score_th faces result = tag_faces_loop score_th result 0 faces"

section \<open>The recognizer and its collaborators\<close>

text \<open>
  What the module calls but does not define is a parameter of the model: the region
  extractor (\<^verbatim>\<open>get_roi\<close>), the shape of a region, \<^verbatim>\<open>cv2.resize\<close> to the
  input size, the zero region \<^verbatim>\<open>np.zeros((h, w, 3))\<close>, one run of the session
  on a batch, which returns the \<^verbatim>\<open>prob\<close> rows and the \<^verbatim>\<open>fc7\<close> rows (a row
  is kept flat, as \<^verbatim>\<open>np.squeeze\<close> leaves it), and \<^verbatim>\<open>ndarray.argsort\<close>, whose
  order among equal values numpy leaves open. A run of the session is taken to return;
  a failure inside the network is outside this model.
\<close>

record ('img, 'face, 'roi) externals =
  get_roi :: "'img \<Rightarrow> 'face \<Rightarrow> 'roi"
  roi_shape :: "'roi \<Rightarrow> nat \<times> nat"
  cv2_resize :: "'roi \<Rightarrow> nat \<times> nat \<Rightarrow> 'roi"
  np_zeros :: "nat \<times> nat \<Rightarrow> 'roi"
  sess_run :: "'roi list \<Rightarrow> npfloat list list \<times> npfloat list list"
  np_argsort :: "npfloat list \<Rightarrow> nat list"

text \<open>
  The attributes of \<^verbatim>\<open>FaceRecognizerVGG\<close> that the methods read. The database is
  a dictionary; its items are kept in iteration order. \<^verbatim>\<open>None\<close> is no database.
\<close>

record recognizer =
  batch_size :: nat
  input_hw :: "nat \<times> nat"
  class_names :: "string list"
  db :: "(string \<times> npfloat list) list option"

text \<open>The two settings read from \<^verbatim>\<open>DeepFaceConfs\<close>.\<close>

record confs =
  topk :: int
  score_th :: npfloat

section \<open>extract\_features\<close>

text \<open>
  An optional argument is \<^verbatim>\<open>None\<close> or a list; Python's truth test on it holds
  for a list that is not empty.
\<close>

definition py_list :: "'a list option \<Rightarrow> 'a list" where
  "py_list xs = (case xs of None \<Rightarrow> [] | Some l \<Rightarrow> l)"

definition truthy :: "'a list option \<Rightarrow> bool" where
  "truthy xs = (py_list xs \<noteq> [])"

text \<open>
  \<^verbatim>\<open>face_to_roi\<close>: one region per face, in order (the optional display of each
  region under \<^verbatim>\<open>DEBUG_SHOW\<close> changes nothing).
\<close>

definition face_to_roi :: "('img, 'face, 'roi) externals \<Rightarrow> 'img \<Rightarrow> 'face list \<Rightarrow> 'roi list" where
  "face_to_roi ext npimg faces = map (get_roi ext npimg) faces"

text \<open>\<^verbatim>\<open>get_new_rois\<close>: a region of another height or width is resized.\<close>

definition get_new_rois :: "('img, 'face, 'roi) externals \<Rightarrow> recognizer \<Rightarrow> 'roi list \<Rightarrow> 'roi list" where
  "get_new_rois ext self rois =
     map (\<lambda>roi. if fst (roi_shape ext roi) \<noteq> fst (input_hw self) \<or>
                    snd (roi_shape ext roi) \<noteq> snd (input_hw self)
                 then cv2_resize ext roi (input_hw self)
                 else roi) rois"

text \<open>
  Modelled from the spec: \<^verbatim>\<open>grouper\<close> of \<^verbatim>\<open>deepface.utils.common\<close> is imported
  by the module and its text is not among the sources. The spec (4.1) says of it:
  "Groups regions into consecutive chunks of exactly batchSize; the last chunk, if
  short, is padded with zero-valued regions of the correct shape", the padding being
  the \<^verbatim>\<open>fillvalue\<close> argument. With a chunk size of 0 there is no chunk to form.
\<close>

function grouper :: "'a list \<Rightarrow> nat \<Rightarrow> 'a \<Rightarrow> 'a list list" where
  "grouper xs n fillvalue =
     (if n = 0 \<or> xs = [] then []
      else (take n xs @ replicate (n - length xs) fillvalue) # grouper (drop n xs) n fillvalue)"
  by pat_completeness auto
termination
  by (relation "measure (\<lambda>(xs, n, fillvalue). length xs)") auto

declare grouper.simps [simp del]

text \<open>
  \<^verbatim>\<open>
  def extract_features(self, npimg, rois=None, faces=None):
      if not rois and faces:
          rois = face_to_roi(npimg=npimg, faces=faces)
      if rois:
          new_rois = self.get_new_rois(rois=rois)
      probs = []
      feats = []
      for roi_chunk in grouper(new_rois, self.batch_size, fillvalue=np.zeros(...)):
          prob, feat = self.persistent_sess.run([...], feed_dict={self.input_node: roi_chunk})
          feat = [np.squeeze(x) for x in feat]
          probs.append(prob)
          feats.append(feat)
      probs = np.vstack(probs)[:len(rois)]
      feats = np.vstack(feats)[:len(rois)]
      return probs, feats
  \<close>
  When \<^verbatim>\<open>rois\<close> is still empty or \<^verbatim>\<open>None\<close> at the second test,
  \<^verbatim>\<open>new_rois\<close> has no value and reading it raises \<^verbatim>\<open>UnboundLocalError\<close>.
  \<^verbatim>\<open>np.vstack\<close> stacks the rows of all batches in order, and raises
  \<^verbatim>\<open>ValueError\<close> on an empty list of batches.
\<close>

definition extract_features ::
  "('img, 'face, 'roi) externals \<Rightarrow> recognizer \<Rightarrow> 'img \<Rightarrow> 'roi list option \<Rightarrow> 'face list option
   \<Rightarrow> py_error + (npfloat list list \<times> npfloat list list)"
where
  "extract_features ext self npimg rois faces =
     (let rois = (if \<not> truthy rois \<and> truthy faces
                  then Some (face_to_roi ext npimg (py_list faces))
                  else rois)
      in if truthy rois then
           (let new_rois = get_new_rois ext self (py_list rois);
                runs = map (sess_run ext)
                         (grouper new_rois (batch_size self) (np_zeros ext (input_hw self)));
                probs = map fst runs;
                feats = map snd runs
            in if runs = [] then Inl ValueError
               else Inr (take (length (py_list rois)) (concat probs),
                         take (length (py_list rois)) (concat feats)))
         else Inl UnboundLocalError)"

section \<open>Cosine similarity\<close>

text \<open>IEEE arithmetic on the special values; finite results are exact.\<close>

fun fl_add :: "npfloat \<Rightarrow> npfloat \<Rightarrow> npfloat" where
  "fl_add NaN _ = NaN"
| "fl_add _ NaN = NaN"
| "fl_add (Fin a) (Fin b) = Fin (a + b)"
| "fl_add PInf NInf = NaN"
| "fl_add NInf PInf = NaN"
| "fl_add PInf _ = PInf"
| "fl_add _ PInf = PInf"
| "fl_add NInf _ = NInf"
| "fl_add _ NInf = NInf"

fun fl_neg :: "npfloat \<Rightarrow> npfloat" where
  "fl_neg (Fin a) = Fin (- a)"
| "fl_neg PInf = NInf"
| "fl_neg NInf = PInf"
| "fl_neg NaN = NaN"

text \<open>The product of an infinity and a finite number: 0 times infinity is NaN.\<close>

definition inf_times :: "npfloat \<Rightarrow> real \<Rightarrow> npfloat" where
  "inf_times i a = (if a = 0 then NaN else if 0 < a then i else fl_neg i)"

fun fl_mul :: "npfloat \<Rightarrow> npfloat \<Rightarrow> npfloat" where
  "fl_mul NaN _ = NaN"
| "fl_mul _ NaN = NaN"
| "fl_mul (Fin a) (Fin b) = Fin (a * b)"
| "fl_mul (Fin a) PInf = inf_times PInf a"
| "fl_mul (Fin a) NInf = inf_times NInf a"
| "fl_mul PInf (Fin b) = inf_times PInf b"
| "fl_mul NInf (Fin b) = inf_times NInf b"
| "fl_mul PInf PInf = PInf"
| "fl_mul NInf NInf = PInf"
| "fl_mul PInf NInf = NInf"
| "fl_mul NInf PInf = NInf"

text \<open>
  Division. A finite number divided by zero is NaN when it is zero itself and an
  infinity of its sign otherwise (the divisors that occur are norms, and a norm that
  is zero is the positive zero).
\<close>

fun fl_div :: "npfloat \<Rightarrow> npfloat \<Rightarrow> npfloat" where
  "fl_div NaN _ = NaN"
| "fl_div _ NaN = NaN"
| "fl_div (Fin a) (Fin b) =
     (if b = 0 then (if a = 0 then NaN else if 0 < a then PInf else NInf)
      else Fin (a / b))"
| "fl_div (Fin a) PInf = Fin 0"
| "fl_div (Fin a) NInf = Fin 0"
| "fl_div PInf (Fin b) = (if 0 \<le> b then PInf else NInf)"
| "fl_div NInf (Fin b) = (if 0 \<le> b then NInf else PInf)"
| "fl_div PInf PInf = NaN"
| "fl_div PInf NInf = NaN"
| "fl_div NInf PInf = NaN"
| "fl_div NInf NInf = NaN"

fun fl_sqrt :: "npfloat \<Rightarrow> npfloat" where
  "fl_sqrt (Fin a) = (if a < 0 then NaN else Fin (sqrt a))"
| "fl_sqrt PInf = PInf"
| "fl_sqrt NInf = NaN"
| "fl_sqrt NaN = NaN"

text \<open>The sum of a list of floats; the sum of no floats is 0.\<close>

primrec fl_sum :: "npfloat list \<Rightarrow> npfloat" where
  "fl_sum [] = Fin 0"
| "fl_sum (x # xs) = fl_add x (fl_sum xs)"

text \<open>
  \<^verbatim>\<open>np.dot(a, b)\<close> on two vectors: the sum of the products, and
  \<^verbatim>\<open>ValueError\<close> when the lengths differ.
\<close>

definition np_dot :: "npfloat list \<Rightarrow> npfloat list \<Rightarrow> py_error + npfloat" where
  "np_dot a b =
     (if length a \<noteq> length b then Inl ValueError
      else Inr (fl_sum (map (\<lambda>(x, y). fl_mul x y) (zip a b))))"

text \<open>\<^verbatim>\<open>np.linalg.norm(v, 2)\<close> on a vector: the square root of \<open>v . v\<close>.\<close>

definition np_norm :: "npfloat list \<Rightarrow> npfloat" where
  "np_norm v = fl_sqrt (fl_sum (map (\<lambda>x. fl_mul x x) v))"

text \<open>
  \<^verbatim>\<open>np.dot(feat / np.linalg.norm(feat, 2), db_feature / np.linalg.norm(db_feature, 2))\<close>.
  Nothing tests a norm before the division.
\<close>

definition similarity :: "npfloat list \<Rightarrow> npfloat list \<Rightarrow> py_error + npfloat" where
  "similarity feat db_feature =
     np_dot (map (\<lambda>x. fl_div x (np_norm feat)) feat)
            (map (\<lambda>x. fl_div x (np_norm db_feature)) db_feature)"

section \<open>Sorting and slicing\<close>

text \<open>
  \<^verbatim>\<open>scores.sort(key=lambda x: x[1], reverse=True)\<close>. \<^verbatim>\<open>list.sort\<close> is stable,
  also with \<^verbatim>\<open>reverse=True\<close>: pairs with equal scores keep their order. It only
  compares keys with \<^verbatim>\<open><\<close>. Where \<^verbatim>\<open><\<close> is a total order on the keys (no
  NaN among them) this fixes the outcome, and the insertion sort below computes it:
  a pair moves behind exactly the pairs that are greater by \<^verbatim>\<open><\<close>.
  With a NaN among the keys \<^verbatim>\<open>list.sort\<close> still returns a permutation of the
  list, but which one depends on how it finds and merges runs, and in general it is
  not the one computed here. The properties proved of the sorted candidates therefore
  speak of the order only for lists without NaN, and otherwise of the candidates as a
  multiset; the runs on sample data with a NaN score are ones where no \<^verbatim>\<open><\<close>
  between any two keys of the list holds in the direction that would move a pair, so
  that \<^verbatim>\<open>list.sort\<close> leaves the list as it is.
\<close>

fun insort_desc :: "(string \<times> npfloat) \<Rightarrow> (string \<times> npfloat) list \<Rightarrow> (string \<times> npfloat) list" where
  "insort_desc x [] = [x]"
| "insort_desc x (y # ys) =
     (if fl_lt (snd x) (snd y) then y # insort_desc x ys else x # y # ys)"

definition py_sort_desc :: "(string \<times> npfloat) list \<Rightarrow> (string \<times> npfloat) list" where
  "py_sort_desc scores = foldr insort_desc scores []"

text \<open>
  The slice \<^verbatim>\<open>xs[start:]\<close>: a negative start counts from the end, and a start
  outside the list is clipped.
\<close>

definition py_slice_from :: "int \<Rightarrow> 'a list \<Rightarrow> 'a list" where
  "py_slice_from start xs =
     (let n = int (length xs);
          s = (if start < 0 then max (start + n) 0 else min start n)
      in drop (nat s) xs)"

text \<open>
  The order in which numpy sorts floats: ascending, with NaN after every number.
  \<^verbatim>\<open>argsort\<close> returns the indices of the row in that order of their values;
  which of two indices with equal values comes first is not laid down for the default
  sorting kind. \<open>argsort_ok\<close> is this contract.
\<close>

definition np_sort_le :: "npfloat \<Rightarrow> npfloat \<Rightarrow> bool" where
  "np_sort_le x y = (is_nan y \<or> (\<not> is_nan x \<and> \<not> fl_lt y x))"

definition argsort_ok :: "npfloat list \<Rightarrow> nat list \<Rightarrow> bool" where
  "argsort_ok prop idxs =
     (mset idxs = mset [0..<length prop] \<and>
      sorted_wrt (\<lambda>i j. np_sort_le (prop ! i) (prop ! j)) idxs)"

section \<open>detect\<close>

text \<open>A loop or comprehension that builds a list: the first exception ends it.\<close>

fun map_err :: "('a \<Rightarrow> py_error + 'b) \<Rightarrow> 'a list \<Rightarrow> py_error + 'b list" where
  "map_err f [] = Inr []"
| "map_err f (x # xs) =
     (case f x of
        Inl e \<Rightarrow> Inl e
      | Inr y \<Rightarrow> (case map_err f xs of Inl e \<Rightarrow> Inl e | Inr ys \<Rightarrow> Inr (y # ys)))"

text \<open>
  The branch without a database, for one row of probabilities:
  \<^verbatim>\<open>[(self.class_names[idx], prop[idx]) for idx in prop.argsort()[-topk:][::-1]]\<close>.
\<close>

definition class_candidates ::
  "('img, 'face, 'roi) externals \<Rightarrow> recognizer \<Rightarrow> confs \<Rightarrow> npfloat list
   \<Rightarrow> py_error + (string \<times> npfloat) list"
where
  "class_candidates ext self conf prop =
     map_err (\<lambda>idx. if idx < length (class_names self) \<and> idx < length prop
                     then Inr (class_names self ! idx, prop ! idx)
                     else Inl IndexError)
       (rev (py_slice_from (- topk conf) (np_argsort ext prop)))"

text \<open>
  The branch with a database, for one feature row: a score for every item of the
  database in iteration order, then the sort.
\<close>

definition db_scores ::
  "npfloat list \<Rightarrow> (string \<times> npfloat list) list \<Rightarrow> py_error + (string \<times> npfloat) list"
where
  "db_scores feat items =
     map_err (\<lambda>(db_name, db_feature).
                case similarity feat db_feature of
                  Inl e \<Rightarrow> Inl e
                | Inr s \<Rightarrow> Inr (db_name, s))
       items"

definition db_candidates ::
  "(string \<times> npfloat list) list \<Rightarrow> npfloat list \<Rightarrow> py_error + (string \<times> npfloat) list"
where
  "db_candidates items feat =
     (case db_scores feat items of
        Inl e \<Rightarrow> Inl e
      | Inr scores \<Rightarrow> Inr (py_sort_desc scores))"

text \<open>
  \<^verbatim>\<open>
  def detect(self, npimg, rois=None, faces=None):
      probs, feats = self.extract_features(npimg=npimg, rois=rois, faces=faces)
      if self.db is None:
          names = [[(self.class_names[idx], prop[idx]) for idx in
                    prop.argsort()[-DeepFaceConfs.get()['recognizer']['topk']:][::-1]]
                   for prop in probs]
      else:
          names = []
          for feat in feats:
              scores = []
              for db_name, db_feature in self.db.items():
                  similarity = np.dot(feat / np.linalg.norm(feat, 2),
                                      db_feature / np.linalg.norm(db_feature, 2))
                  scores.append((db_name, similarity))
              scores.sort(key=lambda x: x[1], reverse=True)
              names.append(scores)
      return {'output': probs, 'feature': feats, 'name': names}
  \<close>
\<close>

definition detect ::
  "('img, 'face, 'roi) externals \<Rightarrow> recognizer \<Rightarrow> confs \<Rightarrow> 'img \<Rightarrow> 'roi list option
   \<Rightarrow> 'face list option \<Rightarrow> py_error + detect_result"
where
  "detect ext self conf npimg rois faces =
     (case extract_features ext self npimg rois faces of
        Inl e \<Rightarrow> Inl e
      | Inr (probs, feats) \<Rightarrow>
          (case (case db self of
                   None \<Rightarrow> map_err (class_candidates ext self conf) probs
                 | Some items \<Rightarrow> map_err (db_candidates items) feats)
           of
             Inl e \<Rightarrow> Inl e
           | Inr names \<Rightarrow>
               Inr \<lparr>result_output = probs, result_feature = feats, result_name = names\<rparr>))"

section \<open>Sample data\<close>

text \<open>A face fresh from the detector: no feature, name or score yet.\<close>

definition new_face :: face where
  "new_face = \<lparr>face_feature = None, face_name = None, face_score = None\<rparr>"

text \<open>
  A result for two faces: the first has a top candidate above a threshold of 0.85,
  the second one below it.
\<close>

definition two_face_result :: detect_result where
  "two_face_result =
     \<lparr>result_output = [[Fin 0.7, Fin 0.3], [Fin 0.4, Fin 0.6]],
      result_feature = [[Fin 1, Fin 0], [Fin 3, Fin 4]],
      result_name = [[(''alice'', Fin 0.9), (''bob'', Fin 0.1)],
                     [(''bob'', Fin 0.82), (''alice'', Fin 0.3)]]\<rparr>"

text \<open>
  A stub for the collaborators, for running the pipeline on fixed vectors: a region
  is the pair of rows that the stub network returns for it, every region has the
  input size, and \<^verbatim>\<open>argsort\<close> is a stable insertion sort of the indices.
\<close>

fun insort_idx :: "(nat \<times> npfloat) \<Rightarrow> (nat \<times> npfloat) list \<Rightarrow> (nat \<times> npfloat) list" where
  "insort_idx x [] = [x]"
| "insort_idx x (y # ys) =
     (if np_sort_le (snd x) (snd y) then x # y # ys else y # insort_idx x ys)"

definition stable_argsort :: "npfloat list \<Rightarrow> nat list" where
  "stable_argsort prop = map fst (foldr insort_idx (enumerate 0 prop) [])"

type_synonym stub_roi = "npfloat list \<times> npfloat list"

definition stub_externals :: "(unit, stub_roi, stub_roi) externals" where
  "stub_externals =
     \<lparr>get_roi = (\<lambda>npimg face. face),
      roi_shape = (\<lambda>roi. (224, 224)),
      cv2_resize = (\<lambda>roi hw. roi),
      np_zeros = (\<lambda>hw. ([], [])),
      sess_run = (\<lambda>roi_chunk. (map fst roi_chunk, map snd roi_chunk)),
      np_argsort = stable_argsort\<rparr>"

text \<open>A recognizer as the constructor leaves it (batches of 4), with three classes.\<close>

definition stub_recognizer :: "(string \<times> npfloat list) list option \<Rightarrow> recognizer" where
  "stub_recognizer database =
     \<lparr>batch_size = 4, input_hw = (224, 224),
      class_names = [''ann'', ''bob'', ''cy''], db = database\<rparr>"

text \<open>Five regions: one full batch of four and a batch of one region and three fills.\<close>

definition five_rois :: "stub_roi list" where
  "five_rois =
     [([Fin 0.7, Fin 0.2, Fin 0.1], [Fin 1, Fin 0]),
      ([Fin 0.1, Fin 0.8, Fin 0.1], [Fin 0, Fin 1]),
      ([Fin 0.3, Fin 0.3, Fin 0.4], [Fin 3, Fin 4]),
      ([Fin 0.5, Fin 0.25, Fin 0.25], [Fin 0, Fin 2]),
      ([Fin 0.2, Fin 0.2, Fin 0.6], [Fin 1, Fin 1])]"

text \<open>Settings: the two best classes, and a threshold of 0.85.\<close>

definition stub_confs :: confs where
  "stub_confs = \<lparr>topk = 2, score_th = Fin 0.85\<rparr>"

text \<open>A database of two people, one of them stored with a vector of zeros.\<close>

definition degenerate_db :: "(string \<times> npfloat list) list" where
  "degenerate_db = [(''ann'', [Fin 3, Fin 4]), (''bob'', [Fin 0, Fin 0])]"

text \<open>A database in which two people have the same vector.\<close>

definition tie_db :: "(string \<times> npfloat list) list" where
  "tie_db = [(''ann'', [Fin 3, Fin 4]), (''cy'', [Fin 1, Fin 0]), (''dan'', [Fin 3, Fin 4])]"

text \<open>A database whose second vector is all zeros, between two unit vectors.\<close>

definition zero_between_db :: "(string \<times> npfloat list) list" where
  "zero_between_db = [(''ann'', [Fin 0, Fin 1]), (''bob'', [Fin 0, Fin 0]), (''cy'', [Fin 1, Fin 0])]"

text \<open>Two regions with their probability rows; both have the feature row (1, 0).\<close>

definition two_rois :: "stub_roi list" where
  "two_rois =
     [([Fin 0.5, Fin 0.25, Fin 0.25], [Fin 1, Fin 0]),
      ([Fin 0.1, Fin 0.2, Fin 0.7], [Fin 1, Fin 0])]"

section \<open>Properties of tag\_faces\<close>

lemma fl_ge_iff_not_lt:
  "\<not> is_nan x \<Longrightarrow> \<not> is_nan y \<Longrightarrow> fl_ge x y = (\<not> fl_lt x y)"
  by (simp add: fl_ge_def)


lemma tag_faces_loop_idem:
  "tag_faces_loop th res i (fst (tag_faces_loop th res i fs)) = tag_faces_loop th res i fs"
proof (induction fs arbitrary: i)
  case Nil
  show ?case by simp
next
  case (Cons f fs)
  show ?case
  proof (cases "length (result_feature res) \<le> i")
    case True
    then show ?thesis by simp
  next
    case feat: False
    show ?thesis
    proof (cases "length (result_name res) \<le> i")
      case True
      with feat show ?thesis by simp
    next
      case nm: False
      show ?thesis
      proof (cases "result_name res ! i")
        case Nil
        with feat nm show ?thesis by simp
      next
        case (Cons c cs)
        obtain n s where c: "c = (n, s)" by (cases c)
        from feat nm Cons c Cons.IH [of "Suc i"] show ?thesis
          by (simp add: Let_def)
      qed
    qed
  qed
qed

lemma tag_faces_loop_ok_nth:
  assumes "snd (tag_faces_loop th res k fs) = None" and "i < length fs"
  shows "k + i < length (result_feature res) \<and> k + i < length (result_name res) \<and>
         (\<exists>nm sc rest. result_name res ! (k + i) = (nm, sc) # rest \<and>
            fst (tag_faces_loop th res k fs) ! i =
              (if fl_lt sc th then (fs ! i)\<lparr>face_feature := Some (result_feature res ! (k + i))\<rparr>
               else (fs ! i)\<lparr>face_feature := Some (result_feature res ! (k + i)),
                              face_name := Some nm, face_score := Some sc\<rparr>))"
  using assms
proof (induction fs arbitrary: k i)
  case Nil
  then show ?case by simp
next
  case (Cons f fs)
  from Cons.prems(1) have feat: "k < length (result_feature res)"
    by (auto split: if_splits)
  from Cons.prems(1) feat have nm: "k < length (result_name res)"
    by (auto simp: Let_def split: if_splits)
  from Cons.prems(1) feat nm obtain n s cs where c: "result_name res ! k = (n, s) # cs"
    by (cases "result_name res ! k") (auto simp: Let_def)
  from Cons.prems(1) feat nm c have rest: "snd (tag_faces_loop th res (Suc k) fs) = None"
    by (simp add: Let_def)
  show ?case
  proof (cases i)
    case 0
    with feat nm c show ?thesis by (simp add: Let_def)
  next
    case (Suc j)
    with Cons.prems(2) have "j < length fs" by simp
    from Cons.IH [OF rest this] have ih:
      "Suc k + j < length (result_feature res) \<and> Suc k + j < length (result_name res) \<and>
       (\<exists>nm sc rest. result_name res ! (Suc k + j) = (nm, sc) # rest \<and>
          fst (tag_faces_loop th res (Suc k) fs) ! j =
            (if fl_lt sc th
             then (fs ! j)\<lparr>face_feature := Some (result_feature res ! (Suc k + j))\<rparr>
             else (fs ! j)\<lparr>face_feature := Some (result_feature res ! (Suc k + j)),
                            face_name := Some nm, face_score := Some sc\<rparr>))" .
    have idx: "Suc k + j = k + i" using Suc by simp
    have step: "fst (tag_faces_loop th res k (f # fs)) ! i =
                fst (tag_faces_loop th res (Suc k) fs) ! j"
      using Suc feat nm c by (simp add: Let_def)
    have nth: "(f # fs) ! i = fs ! j" using Suc by simp
    show ?thesis
      using ih unfolding idx step nth by blast
  qed
qed

lemma fl_lt_not_nan: "fl_lt x y \<Longrightarrow> \<not> is_nan x \<and> \<not> is_nan y"
  by (cases x; cases y) simp_all

lemma not_fl_lt_iff: "(\<not> fl_lt x y) = (fl_ge x y \<or> is_nan x \<or> is_nan y)"
  using fl_lt_not_nan [of x y] by (auto simp: fl_ge_def)


text \<open>
  C9. \<^verbatim>\<open>tag_faces\<close> is idempotent: running it again on the faces it left behind,
  with the same result object and threshold, ends in the same way with every face in
  the same state (feature, name, score and the rest of the record).
\<close>

theorem tag_faces_idempotent:
  "tag_faces th (fst (tag_faces th faces result)) result =
   tag_faces th faces result"
  by (simp add: tag_faces_def tag_faces_loop_idem)

lemma two_face_run:
  "tag_faces (Fin 0.85) [new_face, new_face] two_face_result =
     ([\<lparr>face_feature = Some [Fin 1, Fin 0], face_name = Some ''alice'',
          face_score = Some (Fin 0.9)\<rparr>,
       \<lparr>face_feature = Some [Fin 3, Fin 4], face_name = None, face_score = None\<rparr>],
      None)"
  by (simp add: tag_faces_def two_face_result_def new_face_def)


text \<open>
  C3, as the code has it. The decision is the test \<^verbatim>\<open>score < score_th\<close>: when it
  holds, name and score keep the values they had; when it does not hold, they are set
  to the top candidate's. The test does not hold when \<^verbatim>\<open>score >= score_th\<close>,
  and also when the score or the threshold is NaN.
\<close>

theorem tag_faces_threshold_gate:
  assumes "tag_faces th faces result = (faces', None)" and "i < length faces"
  shows "\<exists>nm score rest. result_name result ! i = (nm, score) # rest \<and>
           (if fl_ge score th \<or> is_nan score \<or> is_nan th
            then face_name (faces' ! i) = Some nm \<and> face_score (faces' ! i) = Some score
            else fl_lt score th \<and>
                 face_name (faces' ! i) = face_name (faces ! i) \<and>
                 face_score (faces' ! i) = face_score (faces ! i))"
proof -
  from assms(1) have ok: "snd (tag_faces_loop th result 0 faces) = None"
    and out: "fst (tag_faces_loop th result 0 faces) = faces'"
    by (simp_all add: tag_faces_def)
  from tag_faces_loop_ok_nth [OF ok assms(2)] out
  obtain nm sc rest where top: "result_name result ! i = (nm, sc) # rest"
    and face: "faces' ! i =
      (if fl_lt sc th
       then (faces ! i)\<lparr>face_feature := Some (result_feature result ! i)\<rparr>
       else (faces ! i)\<lparr>face_feature := Some (result_feature result ! i),
                          face_name := Some nm, face_score := Some sc\<rparr>)"
    by auto
  show ?thesis
  proof (cases "fl_lt sc th")
    case True
    with not_fl_lt_iff [of sc th]
    have "\<not> (fl_ge sc th \<or> is_nan sc \<or> is_nan th)" by simp
    with True top face show ?thesis by simp
  next
    case False
    with not_fl_lt_iff [of sc th]
    have "fl_ge sc th \<or> is_nan sc \<or> is_nan th" by simp
    with False top face show ?thesis by simp
  qed
qed

theorem tag_faces_threshold_gate_witness:
  "tag_faces (Fin 0.85) [new_face, new_face] two_face_result =
     ([\<lparr>face_feature = Some [Fin 1, Fin 0], face_name = Some ''alice'',
          face_score = Some (Fin 0.9)\<rparr>,
       \<lparr>face_feature = Some [Fin 3, Fin 4], face_name = None, face_score = None\<rparr>],
      None) \<and>
   (1::nat) < length [new_face, new_face] \<and>
   fl_lt (Fin 0.82) (Fin 0.85) \<and>
   face_name
     ([\<lparr>face_feature = Some [Fin 1, Fin 0], face_name = Some ''alice'',
          face_score = Some (Fin 0.9)\<rparr>,
       \<lparr>face_feature = Some [Fin 3, Fin 4], face_name = None, face_score = None\<rparr>] ! 1)
     = face_name ([new_face, new_face] ! 1)"
  using tag_faces_threshold_gate [OF two_face_run, of 1] two_face_run
  by (simp add: two_face_result_def new_face_def fl_ge_def)

text \<open>
  C3 as the claim words it fails on a NaN score: NaN is not \<open>>=\<close> the threshold,
  yet the face is given the candidate's name and the NaN score.
\<close>

theorem tag_faces_nan_score_counterexample:
  "\<not> fl_ge NaN (Fin 0.85) \<and>
   tag_faces (Fin 0.85) [new_face]
     \<lparr>result_output = [[Fin 1]], result_feature = [[Fin 0, Fin 0]],
      result_name = [[(''alice'', NaN)]]\<rparr> =
     ([\<lparr>face_feature = Some [Fin 0, Fin 0], face_name = Some ''alice'',
          face_score = Some NaN\<rparr>], None)"
  by (simp add: tag_faces_def new_face_def fl_ge_def)

section \<open>Properties of extract\_features\<close>

lemma grouper_zero: "grouper xs 0 fillvalue = []"
  by (simp add: grouper.simps)

lemma grouper_Nil: "grouper [] n fillvalue = []"
  by (simp add: grouper.simps)

lemma grouper_step:
  "0 < n \<Longrightarrow> xs \<noteq> [] \<Longrightarrow>
   grouper xs n fillvalue =
     (take n xs @ replicate (n - length xs) fillvalue) # grouper (drop n xs) n fillvalue"
  by (subst grouper.simps) simp

lemma grouper_empty_iff: "(grouper xs n fillvalue = []) = (n = 0 \<or> xs = [])"
  by (subst grouper.simps) simp

lemma grouper_chunk_length:
  "chunk \<in> set (grouper xs n fillvalue) \<Longrightarrow> length chunk = n"
proof (induction xs n fillvalue rule: grouper.induct)
  case (1 xs n fillvalue)
  show ?case
  proof (cases "n = 0 \<or> xs = []")
    case True
    with "1.prems" show ?thesis
      by (auto simp: grouper_zero grouper_Nil)
  next
    case False
    then have n: "0 < n" and xs: "xs \<noteq> []" by simp_all
    from "1.prems" grouper_step [OF n xs, of fillvalue]
    have "chunk = take n xs @ replicate (n - length xs) fillvalue \<or>
          chunk \<in> set (grouper (drop n xs) n fillvalue)"
      by simp
    then show ?thesis
    proof
      assume "chunk = take n xs @ replicate (n - length xs) fillvalue"
      then show ?thesis by (simp add: min_def)
    next
      assume "chunk \<in> set (grouper (drop n xs) n fillvalue)"
      with "1.IH" False show ?thesis by simp
    qed
  qed
qed

lemma grouper_concat:
  "0 < n \<Longrightarrow> \<exists>k. concat (grouper xs n fillvalue) = xs @ replicate k fillvalue"
proof (induction xs n fillvalue rule: grouper.induct)
  case (1 xs n fillvalue)
  show ?case
  proof (cases "xs = []")
    case True
    then have "concat (grouper xs n fillvalue) = xs @ replicate 0 fillvalue"
      by (simp add: grouper_Nil)
    then show ?thesis ..
  next
    case False
    with "1.prems" "1.IH" obtain k where
      k: "concat (grouper (drop n xs) n fillvalue) = drop n xs @ replicate k fillvalue"
      by auto
    show ?thesis
    proof (cases "n \<le> length xs")
      case True
      with False "1.prems" k
      have "concat (grouper xs n fillvalue) = xs @ replicate k fillvalue"
        by (simp add: grouper_step)
      then show ?thesis ..
    next
      case short: False
      then have "drop n xs = []" by simp
      with k have "concat (grouper (drop n xs) n fillvalue) = replicate k fillvalue"
        by simp
      with False "1.prems" short
      have "concat (grouper xs n fillvalue) =
            xs @ replicate (n - length xs) fillvalue @ replicate k fillvalue"
        by (simp add: grouper_step)
      also have "\<dots> = xs @ replicate ((n - length xs) + k) fillvalue"
        by (simp only: replicate_add)
      finally show ?thesis ..
    qed
  qed
qed

lemma take_concat_pointwise:
  assumes "0 < n"
  shows "take (length xs) (concat (map (map f) (grouper xs n fillvalue))) = map f xs"
proof -
  from grouper_concat [OF assms, of xs fillvalue] obtain k
    where k: "concat (grouper xs n fillvalue) = xs @ replicate k fillvalue" ..
  have "concat (map (map f) (grouper xs n fillvalue)) = map f (concat (grouper xs n fillvalue))"
    by (simp add: map_concat)
  with k show ?thesis by simp
qed

lemma run_batches_pointwise:
  assumes "\<forall>chunk. length chunk = n \<longrightarrow> sess_run ext chunk = (map prob_of chunk, map feat_of chunk)"
  shows "map (sess_run ext) (grouper xs n fillvalue) =
         map (\<lambda>chunk. (map prob_of chunk, map feat_of chunk)) (grouper xs n fillvalue)"
proof (rule map_cong [OF refl])
  fix chunk
  assume "chunk \<in> set (grouper xs n fillvalue)"
  then have "length chunk = n" by (rule grouper_chunk_length)
  with assms show "sess_run ext chunk = (map prob_of chunk, map feat_of chunk)" by simp
qed

lemma length_get_new_rois: "length (get_new_rois ext self rois) = length rois"
  by (simp add: get_new_rois_def)

lemma extract_features_regions:
  assumes regions: "regions \<noteq> []"
    and batch: "0 < batch_size self"
    and run: "\<forall>chunk. length chunk = batch_size self \<longrightarrow>
                sess_run ext chunk = (map prob_of chunk, map feat_of chunk)"
  shows "(if map (sess_run ext)
               (grouper (get_new_rois ext self regions) (batch_size self)
                  (np_zeros ext (input_hw self))) = []
          then Inl ValueError
          else Inr (take (length regions)
                      (concat (map fst (map (sess_run ext)
                         (grouper (get_new_rois ext self regions) (batch_size self)
                            (np_zeros ext (input_hw self)))))),
                    take (length regions)
                      (concat (map snd (map (sess_run ext)
                         (grouper (get_new_rois ext self regions) (batch_size self)
                            (np_zeros ext (input_hw self)))))))) =
         Inr (map prob_of (get_new_rois ext self regions),
              map feat_of (get_new_rois ext self regions))"
proof -
  let ?new = "get_new_rois ext self regions"
  let ?chunks = "grouper ?new (batch_size self) (np_zeros ext (input_hw self))"
  have new: "?new \<noteq> []" and len: "length regions = length ?new"
    using regions by (simp_all add: get_new_rois_def)
  have runs: "map (sess_run ext) ?chunks =
              map (\<lambda>chunk. (map prob_of chunk, map feat_of chunk)) ?chunks"
    by (rule run_batches_pointwise [OF run])
  have nonempty: "?chunks \<noteq> []"
    using new batch by (simp add: grouper_empty_iff)
  have probs: "take (length regions) (concat (map (map prob_of) ?chunks)) = map prob_of ?new"
    unfolding len by (rule take_concat_pointwise [OF batch])
  have feats: "take (length regions) (concat (map (map feat_of) ?chunks)) = map feat_of ?new"
    unfolding len by (rule take_concat_pointwise [OF batch])
  show ?thesis
    unfolding runs using nonempty probs feats
    by (simp add: comp_def)
qed

text \<open>
  C2, for a call that has regions to work on. When \<^verbatim>\<open>rois\<close> or \<^verbatim>\<open>faces\<close>
  is a non-empty sequence, the batch size is positive and the session computes each
  row of a batch from the image at that position (as the layers of the network do),
  every batch has exactly \<^verbatim>\<open>batch_size\<close> regions, and the call returns one
  probability row and one feature row per input region, in input order: the rows of
  the (resized) regions themselves. The fill region occurs nowhere in the result.
\<close>

theorem extract_features_round_trip:
  assumes "truthy rois \<or> truthy faces"
    and "0 < batch_size self"
    and "\<forall>chunk. length chunk = batch_size self \<longrightarrow>
           sess_run ext chunk = (map prob_of chunk, map feat_of chunk)"
  shows "let regions = (if truthy rois then py_list rois
                        else face_to_roi ext npimg (py_list faces))
         in extract_features ext self npimg rois faces =
              Inr (map prob_of (get_new_rois ext self regions),
                   map feat_of (get_new_rois ext self regions)) \<and>
            length (map prob_of (get_new_rois ext self regions)) = length regions \<and>
            length (map feat_of (get_new_rois ext self regions)) = length regions \<and>
            (\<forall>chunk \<in> set (grouper (get_new_rois ext self regions) (batch_size self)
                              (np_zeros ext (input_hw self))).
               length chunk = batch_size self)"
proof (cases "truthy rois")
  case True
  then have "py_list rois \<noteq> []" by (simp add: truthy_def)
  from extract_features_regions [OF this assms(2,3)] True
  have "extract_features ext self npimg rois faces =
          Inr (map prob_of (get_new_rois ext self (py_list rois)),
               map feat_of (get_new_rois ext self (py_list rois)))"
    by (simp add: extract_features_def Let_def split: if_splits)
  with True show ?thesis
    by (simp add: length_get_new_rois grouper_chunk_length)
next
  case False
  with assms(1) have faces: "truthy faces" by simp
  let ?regions = "face_to_roi ext npimg (py_list faces)"
  from faces have ne: "?regions \<noteq> []"
    by (simp add: truthy_def face_to_roi_def)
  then have t: "truthy (Some ?regions)" and p: "py_list (Some ?regions) = ?regions"
    by (simp_all add: truthy_def py_list_def)
  from extract_features_regions [OF ne assms(2,3)] False faces t p
  have "extract_features ext self npimg rois faces =
          Inr (map prob_of (get_new_rois ext self ?regions),
               map feat_of (get_new_rois ext self ?regions))"
    by (simp add: extract_features_def Let_def split: if_splits)
  with False show ?thesis
    by (simp add: length_get_new_rois grouper_chunk_length)
qed

text \<open>
  C10. With \<^verbatim>\<open>rois\<close> empty or \<^verbatim>\<open>None\<close> and \<^verbatim>\<open>faces\<close> empty or
  \<^verbatim>\<open>None\<close>, \<^verbatim>\<open>extract_features\<close> raises \<^verbatim>\<open>UnboundLocalError\<close>
  (\<^verbatim>\<open>new_rois\<close> is read without a value); it does not return two empty sequences.
\<close>

theorem extract_features_no_input_raises:
  assumes "rois \<in> {None, Some []}" and "faces \<in> {None, Some []}"
  shows "extract_features ext self npimg rois faces = Inl UnboundLocalError \<and>
         extract_features ext self npimg rois faces \<noteq> Inr ([], [])"
  using assms by (auto simp: extract_features_def truthy_def py_list_def)

lemma stub_get_new_rois: "get_new_rois stub_externals (stub_recognizer database) rois = rois"
  by (simp add: get_new_rois_def stub_externals_def stub_recognizer_def)

theorem extract_features_round_trip_witness:
  "truthy (Some five_rois) \<and>
   0 < batch_size (stub_recognizer None) \<and>
   length five_rois = 5 \<and>
   extract_features stub_externals (stub_recognizer None) () (Some five_rois) None =
     Inr (map fst five_rois, map snd five_rois)"
proof -
  have t: "truthy (Some five_rois) \<or> truthy (None :: stub_roi list option)"
    by (simp add: truthy_def py_list_def five_rois_def)
  have b: "0 < batch_size (stub_recognizer None)"
    by (simp add: stub_recognizer_def)
  have r: "\<forall>chunk. length chunk = batch_size (stub_recognizer None) \<longrightarrow>
             sess_run stub_externals chunk = (map fst chunk, map snd chunk)"
    by (simp add: stub_externals_def)
  have p: "py_list (Some five_rois) = five_rois" "truthy (Some five_rois)"
    by (simp_all add: truthy_def py_list_def five_rois_def)
  have l: "length five_rois = 5" by (simp add: five_rois_def)
  from extract_features_round_trip [OF t b r, of "()"] p l b
  show ?thesis by (simp add: Let_def stub_get_new_rois)
qed

text \<open>
  C2 as the claim words it fails for a sequence of no regions: the call raises
  instead of returning no rows.
\<close>

theorem extract_features_zero_regions_counterexample:
  "length ([] :: stub_roi list) = 0 \<and>
   extract_features stub_externals (stub_recognizer None) () (Some []) (Some []) =
     Inl UnboundLocalError"
  by (simp add: extract_features_def truthy_def py_list_def)

theorem extract_features_no_input_raises_witness:
  "Some [] \<in> {None, Some ([] :: stub_roi list)} \<and>
   None \<in> {None, Some ([] :: stub_roi list)} \<and>
   extract_features stub_externals (stub_recognizer None) () (Some []) None =
     Inl UnboundLocalError"
  using extract_features_no_input_raises
          [of "Some []" None stub_externals "stub_recognizer None" "()"]
  by simp

section \<open>Facts about floats, sorting and slicing\<close>

lemma fl_lt_irrefl: "\<not> fl_lt x x"
  by (cases x) simp_all

lemma fl_ge_trans: "fl_ge x y \<Longrightarrow> fl_ge y z \<Longrightarrow> fl_ge x z"
  by (cases x; cases y; cases z) (simp_all add: fl_ge_def)

lemma fl_lt_imp_ge: "fl_lt x y \<Longrightarrow> fl_ge y x"
  by (cases x; cases y) (simp_all add: fl_ge_def)

lemma np_sort_le_total: "np_sort_le x y \<or> np_sort_le y x"
  by (cases x; cases y) (auto simp: np_sort_le_def)

lemma np_sort_le_trans: "np_sort_le x y \<Longrightarrow> np_sort_le y z \<Longrightarrow> np_sort_le x z"
  by (cases x; cases y; cases z) (simp_all add: np_sort_le_def)

lemma np_sort_le_imp_not_lt: "np_sort_le y x \<Longrightarrow> \<not> fl_lt x y"
  by (cases x; cases y) (simp_all add: np_sort_le_def)

lemma np_sort_le_imp_ge: "np_sort_le y x \<Longrightarrow> \<not> is_nan x \<Longrightarrow> fl_ge x y"
  by (cases x; cases y) (simp_all add: np_sort_le_def fl_ge_def)

lemma mset_insort_desc: "mset (insort_desc x ys) = add_mset x (mset ys)"
  by (induction ys) auto

lemma mset_py_sort_desc: "mset (py_sort_desc scores) = mset scores"
  by (induction scores) (simp_all add: py_sort_desc_def mset_insort_desc)

lemma set_py_sort_desc: "set (py_sort_desc scores) = set scores"
  using mset_py_sort_desc [of scores] by (metis set_mset_mset)

lemma length_py_sort_desc: "length (py_sort_desc scores) = length scores"
  using mset_py_sort_desc [of scores] by (metis size_mset)

lemma set_insort_desc: "set (insort_desc x ys) = insert x (set ys)"
  using mset_insort_desc [of x ys] by (metis set_mset_add_mset_insert set_mset_mset)

lemma sorted_insort_desc:
  assumes "sorted_wrt (\<lambda>a b. fl_ge (snd a) (snd b)) ys"
    and "\<not> is_nan (snd x)" and "\<forall>y \<in> set ys. \<not> is_nan (snd y)"
  shows "sorted_wrt (\<lambda>a b. fl_ge (snd a) (snd b)) (insort_desc x ys)"
  using assms
proof (induction ys)
  case Nil
  then show ?case by simp
next
  case (Cons y ys)
  show ?case
  proof (cases "fl_lt (snd x) (snd y)")
    case True
    then have yx: "fl_ge (snd y) (snd x)" by (rule fl_lt_imp_ge)
    from Cons have "sorted_wrt (\<lambda>a b. fl_ge (snd a) (snd b)) (insort_desc x ys)"
      by simp
    with Cons.prems(1) yx True show ?thesis
      by (auto simp: set_insort_desc)
  next
    case False
    with Cons.prems(2,3) have xy: "fl_ge (snd x) (snd y)"
      by (simp add: fl_ge_def)
    have "\<forall>z \<in> set ys. fl_ge (snd x) (snd z)"
    proof
      fix z assume "z \<in> set ys"
      with Cons.prems(1) have "fl_ge (snd y) (snd z)" by simp
      with xy show "fl_ge (snd x) (snd z)" by (rule fl_ge_trans)
    qed
    with False xy Cons.prems(1) show ?thesis by simp
  qed
qed

lemma sorted_py_sort_desc:
  "\<forall>p \<in> set scores. \<not> is_nan (snd p) \<Longrightarrow>
   sorted_wrt (\<lambda>a b. fl_ge (snd a) (snd b)) (py_sort_desc scores)"
proof (induction scores)
  case Nil
  show ?case by (simp add: py_sort_desc_def)
next
  case (Cons x xs)
  then have "sorted_wrt (\<lambda>a b. fl_ge (snd a) (snd b)) (py_sort_desc xs)" by simp
  moreover from Cons.prems have "\<not> is_nan (snd x)" by simp
  moreover from Cons.prems have "\<forall>y \<in> set (py_sort_desc xs). \<not> is_nan (snd y)"
    by (simp add: set_py_sort_desc)
  ultimately have "sorted_wrt (\<lambda>a b. fl_ge (snd a) (snd b)) (insort_desc x (py_sort_desc xs))"
    by (rule sorted_insort_desc)
  then show ?case by (simp add: py_sort_desc_def)
qed

text \<open>Stability: the pairs with one score stand in the order they had before.\<close>

lemma filter_insort_desc:
  "filter (\<lambda>p. snd p = s) (insort_desc x ys) =
     (if snd x = s then x # filter (\<lambda>p. snd p = s) ys else filter (\<lambda>p. snd p = s) ys)"
  by (induction ys) (auto simp: fl_lt_irrefl)

lemma filter_py_sort_desc:
  "filter (\<lambda>p. snd p = s) (py_sort_desc scores) = filter (\<lambda>p. snd p = s) scores"
  by (induction scores) (simp_all add: py_sort_desc_def filter_insort_desc)

lemma py_slice_from_last:
  "0 < k \<Longrightarrow> py_slice_from (- k) xs = drop (length xs - nat k) xs"
  by (simp add: py_slice_from_def Let_def nat_diff_distrib' max_def)

lemma map_err_Inr_all2:
  "map_err f xs = Inr ys \<Longrightarrow> list_all2 (\<lambda>x y. f x = Inr y) xs ys"
proof (induction xs arbitrary: ys)
  case Nil
  then show ?case by simp
next
  case (Cons x xs)
  from Cons.prems obtain y zs where y: "f x = Inr y" and zs: "map_err f xs = Inr zs"
    and ys: "ys = y # zs"
    by (auto split: sum.splits)
  from Cons.IH [OF zs] y ys show ?case by simp
qed

lemma all2_map_err:
  "list_all2 (\<lambda>x y. f x = Inr y) xs ys \<Longrightarrow> map_err f xs = Inr ys"
  by (induction xs ys rule: list_all2_induct) simp_all

lemma map_err_Inr_length: "map_err f xs = Inr ys \<Longrightarrow> length ys = length xs"
  by (drule map_err_Inr_all2) (simp add: list_all2_lengthD)

lemma map_err_Inr_nth:
  "map_err f xs = Inr ys \<Longrightarrow> i < length xs \<Longrightarrow> f (xs ! i) = Inr (ys ! i)"
  by (drule map_err_Inr_all2) (erule list_all2_nthD, assumption)

lemma map_err_map:
  "\<forall>x \<in> set xs. f x = Inr (g x) \<Longrightarrow> map_err f xs = Inr (map g xs)"
  by (induction xs) simp_all

section \<open>Vectors of norm zero\<close>

lemma fl_add_Fin: "fl_add x y = Fin r \<Longrightarrow> \<exists>a b. x = Fin a \<and> y = Fin b \<and> r = a + b"
  by (cases x; cases y) simp_all

lemma fl_mul_self_Fin: "fl_mul x x = Fin r \<Longrightarrow> \<exists>c. x = Fin c \<and> r = c * c"
  by (cases x) simp_all

lemma fl_mul_NaN_right: "fl_mul x NaN = NaN"
  by (cases x) simp_all

lemma fl_sum_squares:
  "fl_sum (map (\<lambda>x. fl_mul x x) v) = Fin r \<Longrightarrow> 0 \<le> r \<and> (r = 0 \<longrightarrow> (\<forall>x \<in> set v. x = Fin 0))"
proof (induction v arbitrary: r)
  case Nil
  then show ?case by simp
next
  case (Cons x v)
  from Cons.prems have "fl_add (fl_mul x x) (fl_sum (map (\<lambda>x. fl_mul x x) v)) = Fin r"
    by simp
  from fl_add_Fin [OF this] obtain a b where a: "fl_mul x x = Fin a"
    and b: "fl_sum (map (\<lambda>x. fl_mul x x) v) = Fin b" and r: "r = a + b"
    by blast
  from fl_mul_self_Fin [OF a] obtain c where c: "x = Fin c" and ac: "a = c * c"
    by blast
  from Cons.IH [OF b] have b0: "0 \<le> b" and rest: "b = 0 \<longrightarrow> (\<forall>x \<in> set v. x = Fin 0)"
    by simp_all
  have a0: "0 \<le> a" using ac by simp
  show ?case
  proof (intro conjI impI)
    show "0 \<le> r" using a0 b0 r by simp
  next
    assume "r = 0"
    with a0 b0 r have "a = 0" and "b = 0" by simp_all
    with ac c rest show "\<forall>x \<in> set (x # v). x = Fin 0" by simp
  qed
qed

lemma np_norm_zero: "np_norm v = Fin 0 \<Longrightarrow> \<forall>x \<in> set v. x = Fin 0"
proof -
  assume norm: "np_norm v = Fin 0"
  then obtain r where sum: "fl_sum (map (\<lambda>x. fl_mul x x) v) = Fin r"
    by (cases "fl_sum (map (\<lambda>x. fl_mul x x) v)") (simp_all add: np_norm_def)
  with norm have "r = 0"
    by (simp add: np_norm_def split: if_splits)
  with fl_sum_squares [OF sum] show ?thesis by simp
qed

lemma normalise_zero_norm:
  "np_norm v = Fin 0 \<Longrightarrow> map (\<lambda>x. fl_div x (np_norm v)) v = replicate (length v) NaN"
proof -
  assume norm: "np_norm v = Fin 0"
  have "\<forall>x \<in> set v. fl_div x (np_norm v) = NaN"
  proof
    fix x assume "x \<in> set v"
    with np_norm_zero [OF norm] have "x = Fin 0" by blast
    then show "fl_div x (np_norm v) = NaN" unfolding norm by simp
  qed
  then show ?thesis
    by (simp add: map_replicate_const [symmetric] cong: map_cong)
qed

lemma np_dot_NaN_left:
  "length b = n \<Longrightarrow> 0 < n \<Longrightarrow> np_dot (replicate n NaN) b = Inr NaN"
  by (cases b; cases n) (simp_all add: np_dot_def)

lemma np_dot_NaN_right:
  "length a = n \<Longrightarrow> 0 < n \<Longrightarrow> np_dot a (replicate n NaN) = Inr NaN"
  by (cases a; cases n) (simp_all add: np_dot_def fl_mul_NaN_right)

lemma similarity_returns:
  "length feat = length db_feature \<Longrightarrow> \<exists>s. similarity feat db_feature = Inr s"
  by (simp add: similarity_def np_dot_def)

lemma similarity_zero_norm:
  assumes "length feat = length db_feature" and "feat \<noteq> []"
    and "np_norm feat = Fin 0 \<or> np_norm db_feature = Fin 0"
  shows "similarity feat db_feature = Inr NaN"
  using assms(3)
proof
  assume z: "np_norm feat = Fin 0"
  have "similarity feat db_feature =
             np_dot (replicate (length feat) NaN)
               (map (\<lambda>x. fl_div x (np_norm db_feature)) db_feature)"
    by (simp only: similarity_def normalise_zero_norm [OF z])
  also have "\<dots> = Inr NaN"
    using assms(1,2) by (intro np_dot_NaN_left) auto
  finally show ?thesis .
next
  assume z: "np_norm db_feature = Fin 0"
  have "similarity feat db_feature =
             np_dot (map (\<lambda>x. fl_div x (np_norm feat)) feat)
               (replicate (length db_feature) NaN)"
    by (simp only: similarity_def normalise_zero_norm [OF z])
  also have "\<dots> = Inr NaN"
    using assms(1,2) by (intro np_dot_NaN_right) auto
  finally show ?thesis .
qed

section \<open>Running the stub\<close>

lemma sqrt_25: "sqrt 25 = 5"
  by (rule real_sqrt_unique) simp_all

lemma stub_fields:
  "db (stub_recognizer database) = database"
  "class_names (stub_recognizer database) = [''ann'', ''bob'', ''cy'']"
  "batch_size (stub_recognizer database) = 4"
  "np_argsort stub_externals = stable_argsort"
  by (simp_all add: stub_recognizer_def stub_externals_def)

lemma stub_extract_features:
  assumes "rois \<noteq> []"
  shows "extract_features stub_externals (stub_recognizer database) () (Some rois) None =
         Inr (map fst rois, map snd rois)"
proof -
  have b: "0 < batch_size (stub_recognizer database)"
    by (simp add: stub_recognizer_def)
  have r: "\<forall>chunk. length chunk = batch_size (stub_recognizer database) \<longrightarrow>
             sess_run stub_externals chunk = (map fst chunk, map snd chunk)"
    by (simp add: stub_externals_def)
  from extract_features_regions [OF assms b r] assms show ?thesis
    by (simp add: extract_features_def Let_def truthy_def py_list_def stub_get_new_rois
        split: if_splits)
qed

lemma tie_db_run:
  "detect stub_externals (stub_recognizer (Some tie_db)) stub_confs () (Some two_rois) None =
   Inr \<lparr>result_output = [[Fin 0.5, Fin 0.25, Fin 0.25], [Fin 0.1, Fin 0.2, Fin 0.7]],
        result_feature = [[Fin 1, Fin 0], [Fin 1, Fin 0]],
        result_name = [[(''cy'', Fin 1), (''ann'', Fin 0.6), (''dan'', Fin 0.6)],
                       [(''cy'', Fin 1), (''ann'', Fin 0.6), (''dan'', Fin 0.6)]]\<rparr>"
  by (simp add: detect_def stub_extract_features stub_fields db_candidates_def db_scores_def
        tie_db_def two_rois_def similarity_def np_dot_def np_norm_def py_sort_desc_def sqrt_25)

section \<open>Properties of detect\<close>

lemma detect_Inr_cases:
  assumes "detect ext self conf npimg rois faces = Inr res"
  obtains probs feats where
    "extract_features ext self npimg rois faces = Inr (probs, feats)"
    "res = \<lparr>result_output = probs, result_feature = feats, result_name = result_name res\<rparr>"
    "(case db self of
        None \<Rightarrow> map_err (class_candidates ext self conf) probs
      | Some items \<Rightarrow> map_err (db_candidates items) feats) = Inr (result_name res)"
  using assms
  by (auto simp: detect_def split: sum.splits prod.splits)

lemma detect_with_db:
  assumes "db self = Some items"
    and "extract_features ext self npimg rois faces = Inr (probs, feats)"
  shows "detect ext self conf npimg rois faces =
           (case map_err (db_candidates items) feats of
              Inl e \<Rightarrow> Inl e
            | Inr names \<Rightarrow>
                Inr \<lparr>result_output = probs, result_feature = feats, result_name = names\<rparr>)"
  using assms by (simp add: detect_def)

lemma detect_without_db:
  assumes "db self = None"
    and "extract_features ext self npimg rois faces = Inr (probs, feats)"
  shows "detect ext self conf npimg rois faces =
           (case map_err (class_candidates ext self conf) probs of
              Inl e \<Rightarrow> Inl e
            | Inr names \<Rightarrow>
                Inr \<lparr>result_output = probs, result_feature = feats, result_name = names\<rparr>)"
  using assms by (simp add: detect_def)

lemma db_scores_Inr:
  assumes "db_scores feat items = Inr scores"
  shows "length scores = length items"
    and "map fst scores = map fst items"
    and "\<forall>j < length items. similarity feat (snd (items ! j)) = Inr (snd (scores ! j))"
proof -
  from assms have all2:
    "list_all2 (\<lambda>item y. (case item of (db_name, db_feature) \<Rightarrow>
        (case similarity feat db_feature of Inl e \<Rightarrow> Inl e | Inr s \<Rightarrow> Inr (db_name, s))) = Inr y)
      items scores"
    unfolding db_scores_def by (rule map_err_Inr_all2)
  then show len: "length scores = length items"
    by (simp add: list_all2_lengthD)
  have each: "fst (scores ! j) = fst (items ! j) \<and>
              similarity feat (snd (items ! j)) = Inr (snd (scores ! j))"
    if "j < length items" for j
  proof -
    obtain db_name db_feature where item: "items ! j = (db_name, db_feature)"
      by (cases "items ! j")
    from list_all2_nthD [OF all2 that] item
    have "(case similarity feat db_feature of Inl e \<Rightarrow> Inl e | Inr s \<Rightarrow> Inr (db_name, s)) =
          Inr (scores ! j)"
      by simp
    then obtain s where "similarity feat db_feature = Inr s" and "scores ! j = (db_name, s)"
      by (cases "similarity feat db_feature") auto
    with item show ?thesis by simp
  qed
  from each len show "map fst scores = map fst items"
    by (intro nth_equalityI) simp_all
  from each show "\<forall>j < length items. similarity feat (snd (items ! j)) = Inr (snd (scores ! j))"
    by simp
qed

lemma db_candidates_Inr:
  assumes "db_candidates items feat = Inr c"
  obtains scores where "db_scores feat items = Inr scores" "c = py_sort_desc scores"
  using assms by (auto simp: db_candidates_def split: sum.splits)

text \<open>
  C7, as the code has it. With a database loaded, a call of \<^verbatim>\<open>detect\<close> that
  returns gives one candidate list per feature row. Each list holds exactly the
  (name, similarity) pairs of all items of the database, one pair per item under the
  item's name, scored by the similarity with that row, so its length is the size of
  the database. When none of these similarities is NaN the list is sorted: every score
  is \<open>>=\<close> all the scores after it, and pairs with one score stand in the
  iteration order of the database. The \<^verbatim>\<open>topk\<close> setting plays no part: under
  any other settings the call returns the same result.
\<close>

theorem detect_db_full_ranking:
  assumes "db self = Some items"
    and "detect ext self conf npimg rois faces = Inr res"
  shows "length (result_name res) = length (result_feature res) \<and>
         (\<forall>i < length (result_feature res).
            length (result_name res ! i) = length items \<and>
            (\<exists>scores.
               map fst scores = map fst items \<and>
               (\<forall>j < length items.
                  similarity (result_feature res ! i) (snd (items ! j)) = Inr (snd (scores ! j))) \<and>
               mset (result_name res ! i) = mset scores \<and>
               ((\<forall>p \<in> set scores. \<not> is_nan (snd p)) \<longrightarrow>
                  sorted_wrt (\<lambda>a b. fl_ge (snd a) (snd b)) (result_name res ! i) \<and>
                  (\<forall>s. filter (\<lambda>p. snd p = s) (result_name res ! i) =
                        filter (\<lambda>p. snd p = s) scores)))) \<and>
         detect ext self conf' npimg rois faces = Inr res"
proof -
  from assms(2) obtain probs feats where
    ex: "extract_features ext self npimg rois faces = Inr (probs, feats)"
    and res: "res = \<lparr>result_output = probs, result_feature = feats, result_name = result_name res\<rparr>"
    and names: "map_err (db_candidates items) feats = Inr (result_name res)"
    using assms(1) by (auto elim!: detect_Inr_cases)
  from res have feats: "result_feature res = feats"
    by (metis detect_result.select_convs(2))
  from names have len: "length (result_name res) = length feats"
    by (rule map_err_Inr_length)
  have row: "length (result_name res ! i) = length items \<and>
             (\<exists>scores.
                map fst scores = map fst items \<and>
                (\<forall>j < length items.
                   similarity (feats ! i) (snd (items ! j)) = Inr (snd (scores ! j))) \<and>
                mset (result_name res ! i) = mset scores \<and>
                ((\<forall>p \<in> set scores. \<not> is_nan (snd p)) \<longrightarrow>
                   sorted_wrt (\<lambda>a b. fl_ge (snd a) (snd b)) (result_name res ! i) \<and>
                   (\<forall>s. filter (\<lambda>p. snd p = s) (result_name res ! i) =
                         filter (\<lambda>p. snd p = s) scores)))"
    if "i < length feats" for i
  proof -
    from map_err_Inr_nth [OF names that]
    have "db_candidates items (feats ! i) = Inr (result_name res ! i)" .
    then obtain scores where sc: "db_scores (feats ! i) items = Inr scores"
      and c: "result_name res ! i = py_sort_desc scores"
      by (rule db_candidates_Inr)
    note facts = db_scores_Inr [OF sc]
    have count: "length (result_name res ! i) = length items"
      using c facts(1) by (simp add: length_py_sort_desc)
    have perm: "mset (result_name res ! i) = mset scores"
      using c by (simp add: mset_py_sort_desc)
    have ord: "sorted_wrt (\<lambda>a b. fl_ge (snd a) (snd b)) (result_name res ! i)"
      if "\<forall>p \<in> set scores. \<not> is_nan (snd p)"
      unfolding c using that by (rule sorted_py_sort_desc)
    have stable: "\<forall>s. filter (\<lambda>p. snd p = s) (result_name res ! i) =
                      filter (\<lambda>p. snd p = s) scores"
      unfolding c by (simp add: filter_py_sort_desc)
    from count perm ord stable facts(2,3) show ?thesis by blast
  qed
  have same: "detect ext self conf' npimg rois faces = Inr res"
    using detect_with_db [OF assms(1) ex, of conf'] names res by simp
  from len row same show ?thesis
    unfolding feats by simp
qed

text \<open>
  C1, as the code has it. With a database loaded, feature rows and database vectors
  of one length \<open>n > 0\<close> never make \<^verbatim>\<open>detect\<close> raise, whatever their norms are:
  the call returns, and wherever the feature row or the database vector of a
  comparison has norm zero, the candidate list of that row holds the item's name with
  the score NaN.
\<close>

theorem detect_zero_norm_unguarded:
  assumes "db self = Some items"
    and "extract_features ext self npimg rois faces = Inr (probs, feats)"
    and "\<forall>feat \<in> set feats. length feat = n"
    and "\<forall>item \<in> set items. length (snd item) = n"
    and "0 < n"
  shows "\<exists>names.
           detect ext self conf npimg rois faces =
             Inr \<lparr>result_output = probs, result_feature = feats, result_name = names\<rparr> \<and>
           length names = length feats \<and>
           (\<forall>i < length feats. \<forall>item \<in> set items.
              np_norm (feats ! i) = Fin 0 \<or> np_norm (snd item) = Fin 0 \<longrightarrow>
              (fst item, NaN) \<in> set (names ! i))"
proof -
  define sim where "sim feat v = (case similarity feat v of Inr s \<Rightarrow> s | Inl e \<Rightarrow> NaN)"
    for feat v
  have sim: "similarity feat (snd item) = Inr (sim feat (snd item))"
    if "feat \<in> set feats" "item \<in> set items" for feat item
  proof -
    from that assms(3,4) have "length feat = length (snd item)" by simp
    from similarity_returns [OF this] show ?thesis by (auto simp: sim_def)
  qed
  have scores: "db_scores feat items = Inr (map (\<lambda>item. (fst item, sim feat (snd item))) items)"
    if "feat \<in> set feats" for feat
    unfolding db_scores_def
  proof (rule map_err_map, rule ballI)
    fix item assume "item \<in> set items"
    from sim [OF that this]
    show "(case item of (db_name, db_feature) \<Rightarrow>
             (case similarity feat db_feature of Inl e \<Rightarrow> Inl e | Inr s \<Rightarrow> Inr (db_name, s))) =
          Inr (fst item, sim feat (snd item))"
      by (cases item) simp
  qed
  have cands: "db_candidates items feat =
                 Inr (py_sort_desc (map (\<lambda>item. (fst item, sim feat (snd item))) items))"
    if "feat \<in> set feats" for feat
    by (simp add: db_candidates_def scores [OF that])
  define names where
    "names = map (\<lambda>feat. py_sort_desc (map (\<lambda>item. (fst item, sim feat (snd item))) items)) feats"
  have all: "map_err (db_candidates items) feats = Inr names"
    unfolding names_def by (rule map_err_map) (simp add: cands)
  have run: "detect ext self conf npimg rois faces =
               Inr \<lparr>result_output = probs, result_feature = feats, result_name = names\<rparr>"
    using detect_with_db [OF assms(1,2), of conf] all by simp
  have nan: "(fst item, NaN) \<in> set (names ! i)"
    if i: "i < length feats" and item: "item \<in> set items"
      and zero: "np_norm (feats ! i) = Fin 0 \<or> np_norm (snd item) = Fin 0" for i item
  proof -
    from i have mem: "feats ! i \<in> set feats" by simp
    with item assms(3,4,5) have "length (feats ! i) = length (snd item)" "feats ! i \<noteq> []"
      by auto
    from similarity_zero_norm [OF this zero] sim [OF mem item]
    have "sim (feats ! i) (snd item) = NaN" by simp
    with item have "(fst item, NaN) \<in> set (map (\<lambda>item. (fst item, sim (feats ! i) (snd item))) items)"
      by force
    with i show ?thesis
      by (simp add: names_def set_py_sort_desc)
  qed
  have "length names = length feats" by (simp add: names_def)
  with run nan show ?thesis by blast
qed

lemma degenerate_db_run:
  "detect stub_externals (stub_recognizer (Some degenerate_db)) stub_confs ()
     (Some [([Fin 0.5, Fin 0.25, Fin 0.25], [Fin 1, Fin 0])]) None =
   Inr \<lparr>result_output = [[Fin 0.5, Fin 0.25, Fin 0.25]],
        result_feature = [[Fin 1, Fin 0]],
        result_name = [[(''ann'', Fin 0.6), (''bob'', NaN)]]\<rparr>"
  by (simp add: detect_def stub_extract_features stub_fields db_candidates_def db_scores_def
        degenerate_db_def similarity_def np_dot_def np_norm_def py_sort_desc_def sqrt_25)

theorem detect_zero_norm_unguarded_witness:
  "np_norm [Fin 0, Fin 0] = Fin 0 \<and>
   detect stub_externals (stub_recognizer (Some degenerate_db)) stub_confs ()
     (Some [([Fin 0.5, Fin 0.25, Fin 0.25], [Fin 1, Fin 0])]) None =
   Inr \<lparr>result_output = [[Fin 0.5, Fin 0.25, Fin 0.25]],
        result_feature = [[Fin 1, Fin 0]],
        result_name = [[(''ann'', Fin 0.6), (''bob'', NaN)]]\<rparr> \<and>
   (''bob'', NaN) \<in> set ([[(''ann'', Fin 0.6), (''bob'', NaN)]] ! 0)"
proof -
  have d: "db (stub_recognizer (Some degenerate_db)) = Some degenerate_db"
    by (simp add: stub_fields)
  have e: "extract_features stub_externals (stub_recognizer (Some degenerate_db)) ()
             (Some [([Fin 0.5, Fin 0.25, Fin 0.25], [Fin 1, Fin 0])]) None =
           Inr ([[Fin 0.5, Fin 0.25, Fin 0.25]], [[Fin 1, Fin 0]])"
    by (simp add: stub_extract_features)
  have f: "\<forall>feat \<in> set [[Fin 1, Fin 0]]. length feat = 2" by simp
  have i: "\<forall>item \<in> set degenerate_db. length (snd item) = 2"
    by (simp add: degenerate_db_def)
  have z: "np_norm [Fin 0, Fin 0] = Fin 0" by (simp add: np_norm_def)
  from detect_zero_norm_unguarded [OF d e f i, of stub_confs] degenerate_db_run z
  show ?thesis by simp
qed

text \<open>
  C1 as the claim words it fails: a feature row of zeros is compared with a database
  vector without any error, and the score of the comparison is NaN.
\<close>

theorem detect_zero_query_counterexample:
  "np_norm [Fin 0, Fin 0] = Fin 0 \<and>
   detect stub_externals (stub_recognizer (Some [(''ann'', [Fin 3, Fin 4])])) stub_confs ()
     (Some [([Fin 0.5, Fin 0.25, Fin 0.25], [Fin 0, Fin 0])]) None =
   Inr \<lparr>result_output = [[Fin 0.5, Fin 0.25, Fin 0.25]],
        result_feature = [[Fin 0, Fin 0]],
        result_name = [[(''ann'', NaN)]]\<rparr>"
  by (simp add: detect_def stub_extract_features stub_fields db_candidates_def db_scores_def
        similarity_def np_dot_def np_norm_def py_sort_desc_def sqrt_25)

theorem detect_db_full_ranking_witness:
  "db (stub_recognizer (Some tie_db)) = Some tie_db \<and>
   detect stub_externals (stub_recognizer (Some tie_db)) stub_confs () (Some two_rois) None =
   Inr \<lparr>result_output = [[Fin 0.5, Fin 0.25, Fin 0.25], [Fin 0.1, Fin 0.2, Fin 0.7]],
        result_feature = [[Fin 1, Fin 0], [Fin 1, Fin 0]],
        result_name = [[(''cy'', Fin 1), (''ann'', Fin 0.6), (''dan'', Fin 0.6)],
                       [(''cy'', Fin 1), (''ann'', Fin 0.6), (''dan'', Fin 0.6)]]\<rparr> \<and>
   length [(''cy'', Fin 1), (''ann'', Fin 0.6), (''dan'', Fin 0.6)] = length tie_db \<and>
   (\<exists>scores.
      map fst scores = map fst tie_db \<and>
      mset [(''cy'', Fin 1), (''ann'', Fin 0.6), (''dan'', Fin 0.6)] = mset scores) \<and>
   sorted_wrt (\<lambda>a b. fl_ge (snd a) (snd b))
     [(''cy'', Fin 1), (''ann'', Fin 0.6), (''dan'', Fin 0.6)] \<and>
   detect stub_externals (stub_recognizer (Some tie_db)) \<lparr>topk = 1, score_th = Fin 0\<rparr> ()
     (Some two_rois) None =
   Inr \<lparr>result_output = [[Fin 0.5, Fin 0.25, Fin 0.25], [Fin 0.1, Fin 0.2, Fin 0.7]],
        result_feature = [[Fin 1, Fin 0], [Fin 1, Fin 0]],
        result_name = [[(''cy'', Fin 1), (''ann'', Fin 0.6), (''dan'', Fin 0.6)],
                       [(''cy'', Fin 1), (''ann'', Fin 0.6), (''dan'', Fin 0.6)]]\<rparr>"
proof -
  let ?c = "[(''cy'', Fin 1), (''ann'', Fin 0.6), (''dan'', Fin 0.6)]"
  let ?res = "\<lparr>result_output = [[Fin 0.5, Fin 0.25, Fin 0.25], [Fin 0.1, Fin 0.2, Fin 0.7]],
               result_feature = [[Fin 1, Fin 0], [Fin 1, Fin 0]],
               result_name = [?c, ?c]\<rparr>"
  have d: "db (stub_recognizer (Some tie_db)) = Some tie_db"
    by (simp add: stub_fields)
  note full = detect_db_full_ranking [OF d tie_db_run, of "\<lparr>topk = 1, score_th = Fin 0\<rparr>"]
  from full have same:
    "detect stub_externals (stub_recognizer (Some tie_db)) \<lparr>topk = 1, score_th = Fin 0\<rparr> ()
       (Some two_rois) None = Inr ?res"
    by (rule conjunct2 [THEN conjunct2])
  have zero: "0 < length (result_feature ?res)" by simp
  from full [THEN conjunct2, THEN conjunct1, rule_format, OF zero]
  obtain scores where names: "map fst scores = map fst tie_db"
    and perm: "mset (result_name ?res ! 0) = mset scores"
    and ord: "(\<forall>p \<in> set scores. \<not> is_nan (snd p)) \<longrightarrow>
              sorted_wrt (\<lambda>a b. fl_ge (snd a) (snd b)) (result_name ?res ! 0)"
    by blast
  have c: "result_name ?res ! 0 = ?c" by simp
  from perm have "set scores = set ?c"
    unfolding c by (metis set_mset_mset)
  then have "\<forall>p \<in> set scores. \<not> is_nan (snd p)" by simp
  with ord have sorted: "sorted_wrt (\<lambda>a b. fl_ge (snd a) (snd b)) ?c"
    unfolding c by blast
  have len: "length ?c = length tie_db" by (simp add: tie_db_def)
  have ex: "\<exists>scores. map fst scores = map fst tie_db \<and> mset ?c = mset scores"
    using names perm unfolding c by blast
  show ?thesis
    by (intro conjI d tie_db_run len ex sorted same)
qed

text \<open>
  C7 as the claim words it fails when a similarity is NaN: the list that
  \<^verbatim>\<open>detect\<close> returns is the full list but not a sorted one. The database vector
  of zeros scores NaN; neither \<open>NaN < 1\<close> nor \<open>0.6 < NaN\<close> holds, so the sort
  moves nothing, and the score 0.6 stays before the score 1.
\<close>

theorem detect_db_nan_unsorted_counterexample:
  "fl_lt (Fin 0.6) (Fin 1) \<and>
   detect stub_externals
     (stub_recognizer (Some [(''ann'', [Fin 3, Fin 4]), (''bob'', [Fin 0, Fin 0]),
                             (''cy'', [Fin 1, Fin 0])]))
     stub_confs () (Some [([Fin 0.5, Fin 0.25, Fin 0.25], [Fin 1, Fin 0])]) None =
   Inr \<lparr>result_output = [[Fin 0.5, Fin 0.25, Fin 0.25]],
        result_feature = [[Fin 1, Fin 0]],
        result_name = [[(''ann'', Fin 0.6), (''bob'', NaN), (''cy'', Fin 1)]]\<rparr>"
  by (simp add: detect_def stub_extract_features stub_fields db_candidates_def db_scores_def
        similarity_def np_dot_def np_norm_def py_sort_desc_def sqrt_25)

section \<open>The order of the candidates\<close>

lemma py_slice_from_drop: "\<exists>m. py_slice_from start xs = drop m xs"
  by (simp add: py_slice_from_def Let_def) blast

lemma map_err_guard_Inr:
  "map_err (\<lambda>x. if P x then Inr (g x) else Inl e) xs = Inr ys \<Longrightarrow> ys = map g xs"
proof (induction xs arbitrary: ys)
  case Nil
  then show ?case by simp
next
  case (Cons x xs)
  from Cons.prems obtain zs where
    "map_err (\<lambda>x. if P x then Inr (g x) else Inl e) xs = Inr zs" and "ys = g x # zs"
    by (auto split: if_splits sum.splits)
  with Cons.IH show ?case by simp
qed

lemma argsort_ok_set: "argsort_ok prop idxs \<Longrightarrow> set idxs = {..<length prop}"
proof -
  assume "argsort_ok prop idxs"
  then have "mset idxs = mset [0..<length prop]" by (simp add: argsort_ok_def)
  then have "set idxs = set [0..<length prop]" by (rule mset_eq_setD)
  then show ?thesis by (simp add: atLeast0LessThan)
qed

lemma argsort_ok_distinct: "argsort_ok prop idxs \<Longrightarrow> distinct idxs"
proof -
  assume "argsort_ok prop idxs"
  then have "mset idxs = mset [0..<length prop]" by (simp add: argsort_ok_def)
  then have "distinct idxs = distinct [0..<length prop]" by (rule mset_eq_imp_distinct_iff)
  then show ?thesis by simp
qed

lemma argsort_ok_length: "argsort_ok prop idxs \<Longrightarrow> length idxs = length prop"
proof -
  assume "argsort_ok prop idxs"
  then have "mset idxs = mset [0..<length prop]" by (simp add: argsort_ok_def)
  then have "length idxs = length [0..<length prop]" by (rule mset_eq_length)
  then show ?thesis by simp
qed

lemma sorted_desc_candidates:
  assumes "sorted_wrt (\<lambda>i j. np_sort_le (prop ! i) (prop ! j)) idxs"
  shows "sorted_wrt (\<lambda>a b. np_sort_le (snd b) (snd a))
           (map (\<lambda>idx. (names ! idx, prop ! idx)) (rev (drop m idxs)))"
proof -
  from assms have "sorted_wrt (\<lambda>i j. np_sort_le (prop ! i) (prop ! j)) (drop m idxs)"
    by (rule sorted_wrt_drop)
  then have "sorted_wrt (\<lambda>i j. np_sort_le (prop ! j) (prop ! i)) (rev (drop m idxs))"
    by (simp add: sorted_wrt_rev)
  then show ?thesis by (simp add: sorted_wrt_map)
qed

lemma sorted_desc_imp_ge:
  assumes "sorted_wrt (\<lambda>a b. np_sort_le (snd b) (snd a)) c"
    and "\<forall>p \<in> set c. \<not> is_nan (snd p)"
  shows "sorted_wrt (\<lambda>a b. fl_ge (snd a) (snd b)) c"
  using assms(1)
proof (rule sorted_wrt_mono_rel [rotated])
  fix a b
  assume "a \<in> set c" and "b \<in> set c" and "np_sort_le (snd b) (snd a)"
  with assms(2) show "fl_ge (snd a) (snd b)"
    by (simp add: np_sort_le_imp_ge)
qed

lemma class_candidates_Inr_sorted:
  assumes "class_candidates ext self conf prop = Inr c"
    and "argsort_ok prop (np_argsort ext prop)"
  shows "sorted_wrt (\<lambda>a b. np_sort_le (snd b) (snd a)) c"
proof -
  obtain m where m: "py_slice_from (- topk conf) (np_argsort ext prop) =
                     drop m (np_argsort ext prop)"
    using py_slice_from_drop by blast
  from assms(1) have "c = map (\<lambda>idx. (class_names self ! idx, prop ! idx))
                            (rev (drop m (np_argsort ext prop)))"
    unfolding class_candidates_def m by (rule map_err_guard_Inr)
  moreover from assms(2)
  have "sorted_wrt (\<lambda>i j. np_sort_le (prop ! i) (prop ! j)) (np_argsort ext prop)"
    by (simp add: argsort_ok_def)
  ultimately show ?thesis by (simp only: sorted_desc_candidates)
qed

text \<open>
  C4, for candidate lists without NaN. In the result of a call of \<^verbatim>\<open>detect\<close>
  that returns, a candidate list none of whose scores is NaN is non-increasing:
  every score is \<open>>=\<close> all the scores after it (without a database this rests on
  the contract of \<^verbatim>\<open>argsort\<close>). With a database, the list is the sort of the
  scores taken in the iteration order of the database, and the candidates that share
  a score stand in that order.
\<close>

theorem detect_candidates_ordered:
  assumes "detect ext self conf npimg rois faces = Inr res"
    and "db self = None \<longrightarrow>
           (\<forall>prop \<in> set (result_output res). argsort_ok prop (np_argsort ext prop))"
    and "c \<in> set (result_name res)"
    and "\<forall>p \<in> set c. \<not> is_nan (snd p)"
  shows "sorted_wrt (\<lambda>a b. fl_ge (snd a) (snd b)) c \<and>
         (\<forall>items. db self = Some items \<longrightarrow>
            (\<exists>feat \<in> set (result_feature res). \<exists>scores.
               db_scores feat items = Inr scores \<and>
               map fst scores = map fst items \<and>
               c = py_sort_desc scores \<and>
               (\<forall>s. filter (\<lambda>p. snd p = s) c = filter (\<lambda>p. snd p = s) scores)))"
proof -
  from assms(1) obtain probs feats where
    res: "res = \<lparr>result_output = probs, result_feature = feats, result_name = result_name res\<rparr>"
    and names: "(case db self of
        None \<Rightarrow> map_err (class_candidates ext self conf) probs
      | Some items \<Rightarrow> map_err (db_candidates items) feats) = Inr (result_name res)"
    by (rule detect_Inr_cases)
  from res have out: "result_output res = probs" and feat: "result_feature res = feats"
    by (metis detect_result.select_convs(1), metis detect_result.select_convs(2))
  from assms(3) obtain i where i: "i < length (result_name res)" and c: "c = result_name res ! i"
    by (auto simp: in_set_conv_nth)
  show ?thesis
  proof (cases "db self")
    case None
    with names have all: "map_err (class_candidates ext self conf) probs = Inr (result_name res)"
      by simp
    from map_err_Inr_length [OF all] i have ip: "i < length probs" by simp
    from map_err_Inr_nth [OF all ip] c
    have cand: "class_candidates ext self conf (probs ! i) = Inr c" by simp
    from None assms(2) out ip have "argsort_ok (probs ! i) (np_argsort ext (probs ! i))"
      by simp
    with cand have "sorted_wrt (\<lambda>a b. np_sort_le (snd b) (snd a)) c"
      by (rule class_candidates_Inr_sorted)
    from sorted_desc_imp_ge [OF this assms(4)] None show ?thesis by simp
  next
    case (Some items)
    with names have all: "map_err (db_candidates items) feats = Inr (result_name res)"
      by simp
    from map_err_Inr_length [OF all] i have ifeat: "i < length feats" by simp
    from map_err_Inr_nth [OF all ifeat] c
    have "db_candidates items (feats ! i) = Inr c" by simp
    then obtain scores where sc: "db_scores (feats ! i) items = Inr scores"
      and sorted: "c = py_sort_desc scores"
      by (rule db_candidates_Inr)
    from assms(4) sorted have "\<forall>p \<in> set scores. \<not> is_nan (snd p)"
      by (simp add: set_py_sort_desc)
    then have ord: "sorted_wrt (\<lambda>a b. fl_ge (snd a) (snd b)) c"
      unfolding sorted by (rule sorted_py_sort_desc)
    have stable: "\<forall>s. filter (\<lambda>p. snd p = s) c = filter (\<lambda>p. snd p = s) scores"
      unfolding sorted by (simp add: filter_py_sort_desc)
    from ifeat have "feats ! i \<in> set (result_feature res)"
      unfolding feat by simp
    with sc db_scores_Inr(2) [OF sc] sorted stable ord Some show ?thesis
      by auto
  qed
qed

lemma no_db_run:
  "detect stub_externals (stub_recognizer None) stub_confs () (Some two_rois) None =
   Inr \<lparr>result_output = [[Fin 0.5, Fin 0.25, Fin 0.25], [Fin 0.1, Fin 0.2, Fin 0.7]],
        result_feature = [[Fin 1, Fin 0], [Fin 1, Fin 0]],
        result_name = [[(''ann'', Fin 0.5), (''cy'', Fin 0.25)],
                       [(''cy'', Fin 0.7), (''bob'', Fin 0.2)]]\<rparr>"
  by (simp add: detect_def stub_extract_features stub_fields class_candidates_def
        stub_confs_def two_rois_def stable_argsort_def py_slice_from_def np_sort_le_def)

lemma two_rois_argsort_ok:
  "argsort_ok [Fin 0.5, Fin 0.25, Fin 0.25] (stable_argsort [Fin 0.5, Fin 0.25, Fin 0.25])"
  "argsort_ok [Fin 0.1, Fin 0.2, Fin 0.7] (stable_argsort [Fin 0.1, Fin 0.2, Fin 0.7])"
  by (simp_all add: argsort_ok_def stable_argsort_def np_sort_le_def upt_rec)

theorem detect_candidates_ordered_witness:
  "detect stub_externals (stub_recognizer (Some tie_db)) stub_confs () (Some two_rois) None =
   Inr \<lparr>result_output = [[Fin 0.5, Fin 0.25, Fin 0.25], [Fin 0.1, Fin 0.2, Fin 0.7]],
        result_feature = [[Fin 1, Fin 0], [Fin 1, Fin 0]],
        result_name = [[(''cy'', Fin 1), (''ann'', Fin 0.6), (''dan'', Fin 0.6)],
                       [(''cy'', Fin 1), (''ann'', Fin 0.6), (''dan'', Fin 0.6)]]\<rparr> \<and>
   sorted_wrt (\<lambda>a b. fl_ge (snd a) (snd b))
     [(''cy'', Fin 1), (''ann'', Fin 0.6), (''dan'', Fin 0.6)] \<and>
   detect stub_externals (stub_recognizer None) stub_confs () (Some two_rois) None =
   Inr \<lparr>result_output = [[Fin 0.5, Fin 0.25, Fin 0.25], [Fin 0.1, Fin 0.2, Fin 0.7]],
        result_feature = [[Fin 1, Fin 0], [Fin 1, Fin 0]],
        result_name = [[(''ann'', Fin 0.5), (''cy'', Fin 0.25)],
                       [(''cy'', Fin 0.7), (''bob'', Fin 0.2)]]\<rparr> \<and>
   sorted_wrt (\<lambda>a b. fl_ge (snd a) (snd b)) [(''cy'', Fin 0.7), (''bob'', Fin 0.2)]"
proof -
  have with_db: "sorted_wrt (\<lambda>a b. fl_ge (snd a) (snd b))
                   [(''cy'', Fin 1), (''ann'', Fin 0.6), (''dan'', Fin 0.6)]"
    using detect_candidates_ordered [OF tie_db_run,
        of "[(''cy'', Fin 1), (''ann'', Fin 0.6), (''dan'', Fin 0.6)]"]
    by (simp add: stub_fields)
  have without_db: "sorted_wrt (\<lambda>a b. fl_ge (snd a) (snd b))
                      [(''cy'', Fin 0.7), (''bob'', Fin 0.2)]"
    using detect_candidates_ordered [OF no_db_run, of "[(''cy'', Fin 0.7), (''bob'', Fin 0.2)]"]
      two_rois_argsort_ok
    by (simp add: stub_fields)
  from with_db without_db tie_db_run no_db_run show ?thesis by simp
qed

text \<open>
  C4 as the claim words it fails when a score is NaN. The database vector of zeros
  scores NaN against the feature row; NaN is neither below nor above a number, so the
  sort leaves the three candidates where they are (CPython takes the reversed keys
  1, NaN, 0 for one run without a descent and moves nothing), and the score 0 comes
  before the score 1.
\<close>

theorem detect_nan_order_counterexample:
  "fl_lt (Fin 0) (Fin 1) \<and>
   detect stub_externals (stub_recognizer (Some zero_between_db)) stub_confs ()
     (Some [([Fin 0.5, Fin 0.25, Fin 0.25], [Fin 1, Fin 0])]) None =
   Inr \<lparr>result_output = [[Fin 0.5, Fin 0.25, Fin 0.25]],
        result_feature = [[Fin 1, Fin 0]],
        result_name = [[(''ann'', Fin 0), (''bob'', NaN), (''cy'', Fin 1)]]\<rparr>"
  by (simp add: detect_def stub_extract_features stub_fields db_candidates_def db_scores_def
        zero_between_db_def similarity_def np_dot_def np_norm_def py_sort_desc_def)

section \<open>The candidates without a database\<close>

lemma class_candidates_top_k:
  assumes ok: "argsort_ok prop (np_argsort ext prop)"
    and len: "length prop = length (class_names self)"
    and k: "0 < topk conf"
  shows "\<exists>idxs.
           class_candidates ext self conf prop =
             Inr (map (\<lambda>idx. (class_names self ! idx, prop ! idx)) idxs) \<and>
           length idxs = min (nat (topk conf)) (length (class_names self)) \<and>
           distinct idxs \<and>
           set idxs \<subseteq> {..<length (class_names self)} \<and>
           sorted_wrt (\<lambda>i j. np_sort_le (prop ! j) (prop ! i)) idxs \<and>
           (\<forall>j < length (class_names self). j \<notin> set idxs \<longrightarrow>
              (\<forall>idx \<in> set idxs. np_sort_le (prop ! j) (prop ! idx)))"
proof -
  let ?all = "np_argsort ext prop"
  let ?n = "length (class_names self)"
  let ?m = "length ?all - nat (topk conf)"
  let ?idxs = "rev (drop ?m ?all)"
  have slice: "py_slice_from (- topk conf) ?all = drop ?m ?all"
    using k by (rule py_slice_from_last)
  have all_set: "set ?all = {..<?n}" and all_len: "length ?all = ?n"
    and all_distinct: "distinct ?all"
    using argsort_ok_set [OF ok] argsort_ok_length [OF ok] argsort_ok_distinct [OF ok] len
    by simp_all
  have all_sorted: "sorted_wrt (\<lambda>i j. np_sort_le (prop ! i) (prop ! j)) ?all"
    using ok by (simp add: argsort_ok_def)
  have sub: "set ?idxs \<subseteq> {..<?n}"
    using set_drop_subset [of ?m ?all] all_set by auto
  have run: "class_candidates ext self conf prop =
               Inr (map (\<lambda>idx. (class_names self ! idx, prop ! idx)) ?idxs)"
    unfolding class_candidates_def slice
  proof (rule map_err_map, rule ballI)
    fix idx assume "idx \<in> set ?idxs"
    with sub have "idx < ?n" by auto
    with len show "(if idx < ?n \<and> idx < length prop
                    then Inr (class_names self ! idx, prop ! idx) else Inl IndexError) =
                   Inr (class_names self ! idx, prop ! idx)"
      by simp
  qed
  have count: "length ?idxs = min (nat (topk conf)) ?n"
    using all_len by (simp add: min_def)
  have dist: "distinct ?idxs"
    using all_distinct by simp
  have sorted: "sorted_wrt (\<lambda>i j. np_sort_le (prop ! j) (prop ! i)) ?idxs"
    using sorted_wrt_drop [OF all_sorted, of ?m] by (simp add: sorted_wrt_rev)
  have top: "np_sort_le (prop ! j) (prop ! idx)"
    if j: "j < ?n" "j \<notin> set ?idxs" and idx: "idx \<in> set ?idxs" for j idx
  proof -
    from j all_set have "j \<in> set ?all" by simp
    then have "j \<in> set (take ?m ?all) \<union> set (drop ?m ?all)"
      by (simp only: set_append [symmetric] append_take_drop_id)
    with j(2) have jt: "j \<in> set (take ?m ?all)" by simp
    from idx have id: "idx \<in> set (drop ?m ?all)" by simp
    from all_sorted
    have "sorted_wrt (\<lambda>i j. np_sort_le (prop ! i) (prop ! j)) (take ?m ?all @ drop ?m ?all)"
      by simp
    with jt id show ?thesis
      unfolding sorted_wrt_append by blast
  qed
  from run count dist sub sorted top show ?thesis by blast
qed

text \<open>
  C6. Without a database and with \<^verbatim>\<open>topk > 0\<close>, \<^verbatim>\<open>detect\<close> returns for every
  query a list of exactly \<open>min(topk, numClasses)\<close> candidates. They are (class name,
  probability) pairs of distinct classes, in descending order of probability (in the
  order of numpy's sort, where NaN ranks above every number; with \<open>>=\<close> between
  any earlier and later candidate when the row has no NaN), and no class left out has
  a probability above a candidate's. When \<^verbatim>\<open>topk\<close> is at least the number of
  classes, all classes are returned. The rows of the network have one probability per
  class name, and \<^verbatim>\<open>argsort\<close> keeps its contract.
\<close>

theorem detect_fallback_top_k:
  assumes "db self = None"
    and "0 < topk conf"
    and "extract_features ext self npimg rois faces = Inr (probs, feats)"
    and "\<forall>prop \<in> set probs.
           length prop = length (class_names self) \<and> argsort_ok prop (np_argsort ext prop)"
  shows "\<exists>names.
           detect ext self conf npimg rois faces =
             Inr \<lparr>result_output = probs, result_feature = feats, result_name = names\<rparr> \<and>
           length names = length probs \<and>
           (\<forall>i < length probs.
              length (names ! i) = min (nat (topk conf)) (length (class_names self)) \<and>
              sorted_wrt (\<lambda>a b. np_sort_le (snd b) (snd a)) (names ! i) \<and>
              ((\<forall>p \<in> set (probs ! i). \<not> is_nan p) \<longrightarrow>
                 sorted_wrt (\<lambda>a b. fl_ge (snd a) (snd b)) (names ! i)) \<and>
              (\<exists>idxs.
                 names ! i = map (\<lambda>idx. (class_names self ! idx, probs ! i ! idx)) idxs \<and>
                 distinct idxs \<and>
                 set idxs \<subseteq> {..<length (class_names self)} \<and>
                 (int (length (class_names self)) \<le> topk conf \<longrightarrow>
                    set idxs = {..<length (class_names self)}) \<and>
                 (\<forall>j < length (class_names self). j \<notin> set idxs \<longrightarrow>
                    (\<forall>idx \<in> set idxs. np_sort_le (probs ! i ! j) (probs ! i ! idx)))))"
proof -
  let ?n = "length (class_names self)"
  let ?good = "\<lambda>prop c.
     length c = min (nat (topk conf)) ?n \<and>
     sorted_wrt (\<lambda>a b. np_sort_le (snd b) (snd a)) c \<and>
     ((\<forall>p \<in> set prop. \<not> is_nan p) \<longrightarrow> sorted_wrt (\<lambda>a b. fl_ge (snd a) (snd b)) c) \<and>
     (\<exists>idxs.
        c = map (\<lambda>idx. (class_names self ! idx, prop ! idx)) idxs \<and>
        distinct idxs \<and>
        set idxs \<subseteq> {..<?n} \<and>
        (int ?n \<le> topk conf \<longrightarrow> set idxs = {..<?n}) \<and>
        (\<forall>j < ?n. j \<notin> set idxs \<longrightarrow> (\<forall>idx \<in> set idxs. np_sort_le (prop ! j) (prop ! idx))))"
  have row: "\<exists>c. class_candidates ext self conf pr = Inr c \<and> ?good pr c"
    if "pr \<in> set probs" for pr
  proof -
    from that assms(4) have len: "length pr = ?n"
      and ok: "argsort_ok pr (np_argsort ext pr)"
      by simp_all
    from class_candidates_top_k [OF ok len assms(2)] obtain idxs where
      run: "class_candidates ext self conf pr =
              Inr (map (\<lambda>idx. (class_names self ! idx, pr ! idx)) idxs)"
      and count: "length idxs = min (nat (topk conf)) ?n"
      and dist: "distinct idxs"
      and sub: "set idxs \<subseteq> {..<?n}"
      and sorted: "sorted_wrt (\<lambda>i j. np_sort_le (pr ! j) (pr ! i)) idxs"
      and top: "\<forall>j < ?n. j \<notin> set idxs \<longrightarrow> (\<forall>idx \<in> set idxs. np_sort_le (pr ! j) (pr ! idx))"
      by blast
    let ?c = "map (\<lambda>idx. (class_names self ! idx, pr ! idx)) idxs"
    have desc: "sorted_wrt (\<lambda>a b. np_sort_le (snd b) (snd a)) ?c"
      using sorted by (simp add: sorted_wrt_map)
    have ge: "sorted_wrt (\<lambda>a b. fl_ge (snd a) (snd b)) ?c" if "\<forall>p \<in> set pr. \<not> is_nan p"
    proof (rule sorted_desc_imp_ge [OF desc], rule ballI)
      fix p assume "p \<in> set ?c"
      then obtain idx where "idx \<in> set idxs" and p: "p = (class_names self ! idx, pr ! idx)"
        by auto
      with sub len have "pr ! idx \<in> set pr" by auto
      with that p show "\<not> is_nan (snd p)" by simp
    qed
    have full: "set idxs = {..<?n}" if "int ?n \<le> topk conf"
    proof (rule card_subset_eq [OF _ sub])
      show "finite {..<?n}" by simp
      from that have "?n \<le> nat (topk conf)" by linarith
      with count have "length idxs = ?n" by simp
      with dist show "card (set idxs) = card {..<?n}"
        by (simp add: distinct_card)
    qed
    from run count desc ge dist sub full top show ?thesis
      by (intro exI [of _ ?c]) (simp, blast)
  qed
  define cand where "cand pr = (case class_candidates ext self conf pr of Inr c \<Rightarrow> c | Inl e \<Rightarrow> [])"
    for pr
  have cand: "class_candidates ext self conf pr = Inr (cand pr) \<and> ?good pr (cand pr)"
    if "pr \<in> set probs" for pr
    using row [OF that] by (auto simp: cand_def)
  have all: "map_err (class_candidates ext self conf) probs = Inr (map cand probs)"
    by (rule map_err_map) (simp add: cand)
  have run: "detect ext self conf npimg rois faces =
               Inr \<lparr>result_output = probs, result_feature = feats, result_name = map cand probs\<rparr>"
    using detect_without_db [OF assms(1,3), of conf] all by simp
  have "\<forall>i < length probs. ?good (probs ! i) (map cand probs ! i)"
    using cand by simp
  with run show ?thesis
    by (intro exI [of _ "map cand probs"]) simp
qed

theorem detect_fallback_top_k_witness:
  "db (stub_recognizer None) = None \<and>
   0 < topk stub_confs \<and>
   detect stub_externals (stub_recognizer None) stub_confs () (Some two_rois) None =
   Inr \<lparr>result_output = [[Fin 0.5, Fin 0.25, Fin 0.25], [Fin 0.1, Fin 0.2, Fin 0.7]],
        result_feature = [[Fin 1, Fin 0], [Fin 1, Fin 0]],
        result_name = [[(''ann'', Fin 0.5), (''cy'', Fin 0.25)],
                       [(''cy'', Fin 0.7), (''bob'', Fin 0.2)]]\<rparr> \<and>
   length [(''cy'', Fin 0.7), (''bob'', Fin 0.2)] =
     min (nat (topk stub_confs)) (length (class_names (stub_recognizer None)))"
proof -
  have d: "db (stub_recognizer None) = None" by (simp add: stub_fields)
  have k: "0 < topk stub_confs" by (simp add: stub_confs_def)
  have e: "extract_features stub_externals (stub_recognizer None) () (Some two_rois) None =
           Inr ([[Fin 0.5, Fin 0.25, Fin 0.25], [Fin 0.1, Fin 0.2, Fin 0.7]],
                [[Fin 1, Fin 0], [Fin 1, Fin 0]])"
    by (simp add: stub_extract_features two_rois_def)
  have a: "\<forall>prop \<in> set [[Fin 0.5, Fin 0.25, Fin 0.25], [Fin 0.1, Fin 0.2, Fin 0.7]].
             length prop = length (class_names (stub_recognizer None)) \<and>
             argsort_ok prop (np_argsort stub_externals prop)"
    using two_rois_argsort_ok by (simp add: stub_fields)
  from detect_fallback_top_k [OF d k e a] d k no_db_run
  show ?thesis by (simp add: stub_fields stub_confs_def)
qed

section \<open>An empty database\<close>

lemma tag_faces_empty_candidates:
  "tag_faces th (face # faces)
     \<lparr>result_output = probs, result_feature = feat # feats, result_name = [] # names\<rparr> =
     (face\<lparr>face_feature := Some feat\<rparr> # faces, Some IndexError)"
  by (simp add: tag_faces_def)

lemma empty_db_run:
  "detect stub_externals (stub_recognizer (Some [])) stub_confs () (Some two_rois) None =
   Inr \<lparr>result_output = [[Fin 0.5, Fin 0.25, Fin 0.25], [Fin 0.1, Fin 0.2, Fin 0.7]],
        result_feature = [[Fin 1, Fin 0], [Fin 1, Fin 0]],
        result_name = [[], []]\<rparr>"
  by (simp add: detect_def stub_extract_features stub_fields db_candidates_def db_scores_def
        two_rois_def py_sort_desc_def)

text \<open>
  C5. With a database that holds no one, \<^verbatim>\<open>detect\<close> returns an empty candidate
  list for every face. On such a result \<^verbatim>\<open>result['name'][face_idx][0]\<close> raises
  \<^verbatim>\<open>IndexError\<close> for the first face: \<^verbatim>\<open>tag_faces\<close> ends there, after that
  face got its feature, and the faces after it are not visited.
\<close>

theorem tag_faces_empty_database_raises:
  "detect stub_externals (stub_recognizer (Some [])) stub_confs () (Some two_rois) None =
     Inr \<lparr>result_output = [[Fin 0.5, Fin 0.25, Fin 0.25], [Fin 0.1, Fin 0.2, Fin 0.7]],
          result_feature = [[Fin 1, Fin 0], [Fin 1, Fin 0]],
          result_name = [[], []]\<rparr> \<and>
   tag_faces (score_th stub_confs) [new_face, new_face]
     \<lparr>result_output = [[Fin 0.5, Fin 0.25, Fin 0.25], [Fin 0.1, Fin 0.2, Fin 0.7]],
      result_feature = [[Fin 1, Fin 0], [Fin 1, Fin 0]],
      result_name = [[], []]\<rparr> =
     ([new_face\<lparr>face_feature := Some [Fin 1, Fin 0]\<rparr>, new_face], Some IndexError)"
  using empty_db_run by (simp add: tag_faces_empty_candidates)

end
